theory Spec2Isabelle
  imports Main
begin

section \<open>The extension's data\<close>

text \<open>
  The development follows \<^verbatim>\<open>src/extension.ts\<close>, the glue between the editor host and
  the per-document controllers. The types below are declared in modules that
  \<^verbatim>\<open>extension.ts\<close> imports (\<^verbatim>\<open>vscode\<close>, \<^verbatim>\<open>./configuration\<close>, \<^verbatim>\<open>./document\<close>,
  \<^verbatim>\<open>./text-mate\<close>); each is given with the fields that \<^verbatim>\<open>extension.ts\<close> reads or writes.
\<close>

text \<open>
  \<^verbatim>\<open>documents\<close> is keyed by the \<^verbatim>\<open>Uri\<close> object of a document; a \<open>uri\<close> stands for that
  object.
\<close>

type_synonym uri = string

record text_document =
  uri :: uri
  languageId :: string

record text_editor =
  document :: text_document

text \<open>
  The \<^verbatim>\<open>language\<close> field of an entry is only ever compared with a string by \<^verbatim>\<open>===\<close>
  (line 232). A value that is not a string is never equal to one.
\<close>

datatype language_selector = SelectorString string | SelectorObject

text \<open>An optional field is \<^verbatim>\<open>undefined\<close> when it is \<open>None\<close>.\<close>

record substitution =
  pattern :: string
  glyph :: string
  scope :: "string option"

record language_entry =
  language :: language_selector
  substitutions :: "substitution list"
  revealOn :: "string option"
  adjustCursorMovement :: "bool option"
  prettyCursor :: "string option"
  combineIdenticalScopes :: "bool option"
  textMateInitialScope :: "string option"

record settings =
  s_substitutions :: "language_entry list"
  s_revealOn :: string
  s_adjustCursorMovement :: bool
  s_prettyCursor :: string
  s_hideTextMethod :: string

datatype grammar = Grammar string

datatype registry = Registry

datatype exn = Error string

datatype 'a result = Return 'a | Throw exn

text \<open>
  A \<^verbatim>\<open>PrettyDocumentController\<close> is the record of the arguments its constructor is
  given at line 299. Its methods belong to \<^verbatim>\<open>./document\<close>; a call of one is recorded in
  the list of effects. The calls that \<^verbatim>\<open>extension.ts\<close> makes inside a \<^verbatim>\<open>try\<close> block
  (\<^verbatim>\<open>refresh\<close>, \<^verbatim>\<open>selectionChanged\<close>, \<^verbatim>\<open>copyDecorated\<close>, \<^verbatim>\<open>gotFocus\<close>) may throw, and the
  host record below says which do. \<^verbatim>\<open>dispose\<close> is called with no handler around it and
  is taken to return.
\<close>

record controller =
  c_doc :: text_document
  c_language :: language_entry
  c_hideTextMethod :: string
  c_textMateGrammar :: "grammar option"

datatype session_method = Refresh | SelectionChanged | CopyDecorated | GotFocus

text \<open>
  An observer registered through \<^verbatim>\<open>onDidEnabledChange\<close> is a function of another
  extension, known by its identity. The host record below says whether a call of it
  throws. An observer is taken not to call back into this extension while it runs.
\<close>

type_synonym handler = nat

text \<open>
  A language entry passed to \<^verbatim>\<open>registerSubstitutions\<close> is an object, and the \<^verbatim>\<open>Set\<close> that
  keeps it compares objects by identity: an object is its reference with its content.
\<close>

type_synonym object_ref = nat

datatype effect =
    Notified handler bool
  | Disposed controller
  | Called session_method controller

record extension_grammar =
  g_language :: "string option"
  g_scopeName :: "string option"

text \<open>
  What the functions read from the editor host when they run: the
  \<^verbatim>\<open>prettifySymbolsMode\<close> configuration (a key that is not set is \<open>None\<close>), the open
  text documents, the grammars contributed by the installed extensions (\<open>None\<close> when
  enumerating them throws), whether \<^verbatim>\<open>new tm.Registry\<close> throws, the outcome of
  \<^verbatim>\<open>textMateRegistry.loadGrammar\<close> for a scope name, the exception, if any, that a
  method of a controller throws, and the exception, if any, that an observer throws when
  it is called with a value.
\<close>

record host =
  config_substitutions :: "language_entry list option"
  config_revealOn :: "string option"
  config_adjustCursorMovement :: "bool option"
  config_prettyCursor :: "string option"
  config_hideTextMethod :: "string option"
  textDocuments :: "text_document list"
  contributed_grammars :: "extension_grammar list option"
  registry_throws :: bool
  grammar_outcome :: "string option \<Rightarrow> exn + grammar"
  session_throws :: "session_method \<Rightarrow> controller \<Rightarrow> exn option"
  observer_throws :: "handler \<Rightarrow> bool \<Rightarrow> exn option"

text \<open>
  A call of \<^verbatim>\<open>openDocument\<close> that has reached \<^verbatim>\<open>await loadGrammar(scopeName)\<close> at
  line 293: the document, the language entry and the scope name it holds while it is
  suspended.
\<close>

record pending_open =
  p_doc :: text_document
  p_language :: language_entry
  p_scopeName :: "string option"

text \<open>
  The module's variables (lines 14 to 23). \<^verbatim>\<open>documents\<close> is a JavaScript \<^verbatim>\<open>Map\<close> and
  the two registries are \<^verbatim>\<open>Set\<close>s: both keep insertion order, so they are lists
  without repeated keys or members. \<open>pending\<close> holds the suspended calls of
  \<^verbatim>\<open>openDocument\<close>, and \<open>effects\<close> the calls made so far into observers and controllers.
\<close>

record state =
  prettySymbolsEnabled :: bool
  documents :: "(uri \<times> controller) list"
  settings :: settings
  onEnabledChangeHandlers :: "handler list"
  additionalSubstitutions :: "(object_ref \<times> language_entry) list"
  textMateRegistry :: "registry option"
  pending :: "pending_open list"
  effects :: "effect list"


section \<open>Maps and sets of JavaScript\<close>

fun Map_get :: "('k \<times> 'v) list \<Rightarrow> 'k \<Rightarrow> 'v option" where
  "Map_get [] k = None"
| "Map_get ((k', v) # m) k = (if k' = k then Some v else Map_get m k)"

text \<open>\<^verbatim>\<open>set\<close> keeps the position of a key that is present and appends a new one.\<close>

fun Map_set :: "('k \<times> 'v) list \<Rightarrow> 'k \<Rightarrow> 'v \<Rightarrow> ('k \<times> 'v) list" where
  "Map_set [] k v = [(k, v)]"
| "Map_set ((k', v') # m) k v = (if k' = k then (k, v) # m else (k', v') # Map_set m k v)"

text \<open>A \<^verbatim>\<open>Map\<close> has at most one entry for a key; \<^verbatim>\<open>delete\<close> leaves none.\<close>

definition Map_delete :: "('k \<times> 'v) list \<Rightarrow> 'k \<Rightarrow> ('k \<times> 'v) list" where
  "Map_delete m k = filter (\<lambda>(k', v'). k' \<noteq> k) m"

definition Map_values :: "('k \<times> 'v) list \<Rightarrow> 'v list" where
  "Map_values m = map snd m"

definition Set_add :: "'a list \<Rightarrow> 'a \<Rightarrow> 'a list" where
  "Set_add xs x = (if x \<in> set xs then xs else xs @ [x])"

definition Set_delete :: "'a list \<Rightarrow> 'a \<Rightarrow> 'a list" where
  "Set_delete xs x = filter (\<lambda>y. y \<noteq> x) xs"

text \<open>The same for a set of objects: membership is by the reference alone.\<close>

definition Set_add_object :: "(object_ref \<times> 'a) list \<Rightarrow> object_ref \<times> 'a \<Rightarrow> (object_ref \<times> 'a) list" where
  "Set_add_object xs x = (if fst x \<in> fst ` set xs then xs else xs @ [x])"

definition Set_delete_object :: "(object_ref \<times> 'a) list \<Rightarrow> object_ref \<times> 'a \<Rightarrow> (object_ref \<times> 'a) list" where
  "Set_delete_object xs x = filter (\<lambda>y. fst y \<noteq> fst x) xs"


section \<open>The functions of extension.ts\<close>

subsection \<open>Scope name of a language (lines 35 to 50)\<close>

definition getLanguageScopeName :: "host \<Rightarrow> string \<Rightarrow> string option" where
  "getLanguageScopeName h lang =
     (case contributed_grammars h of
        None \<Rightarrow> Some (''source.'' @ lang)
      | Some languages \<Rightarrow>
          (case filter (\<lambda>g. g_language g = Some lang) languages of
             [] \<Rightarrow> Some (''source.'' @ lang)
           | g # _ \<Rightarrow> g_scopeName g))"

text \<open>\<^verbatim>\<open>a || b\<close> on strings: \<^verbatim>\<open>undefined\<close> and the empty string are falsy.\<close>

definition or_else :: "string option \<Rightarrow> string option \<Rightarrow> string option" where
  "or_else a b = (case a of None \<Rightarrow> b | Some x \<Rightarrow> if x = [] then b else Some x)"

subsection \<open>Calls into a controller, and try/catch\<close>

definition call_method :: "host \<Rightarrow> session_method \<Rightarrow> controller \<Rightarrow> state \<Rightarrow> unit result \<times> state" where
  "call_method h m c s =
     ((case session_throws h m c of None \<Rightarrow> Return () | Some e \<Rightarrow> Throw e),
      s\<lparr>effects := effects s @ [Called m c]\<rparr>)"

text \<open>
  \<^verbatim>\<open>try { body } catch (e) { }\<close>, where the catch block is empty or only logs to the
  console: the exception stops there, the state is the one the body left.
\<close>

definition try_catch :: "(state \<Rightarrow> unit result \<times> state) \<Rightarrow> state \<Rightarrow> unit result \<times> state" where
  "try_catch body s = (case body s of (Throw e, s') \<Rightarrow> (Return (), s') | (Return u, s') \<Rightarrow> (Return u, s'))"

subsection \<open>Event handlers that forward to a controller (lines 133 to 165)\<close>

definition copyWithSubstitutions :: "host \<Rightarrow> state \<Rightarrow> text_editor option \<Rightarrow> unit result \<times> state" where
  "copyWithSubstitutions h s editor =
     try_catch (\<lambda>s.
       case editor of
         None \<Rightarrow> (Return (), s)
       | Some ed \<Rightarrow>
           (case Map_get (documents s) (uri (document ed)) of
              None \<Rightarrow> (Return (), s)
            | Some prettyDoc \<Rightarrow> call_method h CopyDecorated prettyDoc s)) s"

definition changeActiveTextEditor :: "host \<Rightarrow> state \<Rightarrow> text_editor option \<Rightarrow> unit result \<times> state" where
  "changeActiveTextEditor h s editor =
     try_catch (\<lambda>s.
       case editor of
         None \<Rightarrow> (Return (), s)
       | Some ed \<Rightarrow>
           (case Map_get (documents s) (uri (document ed)) of
              None \<Rightarrow> (Return (), s)
            | Some prettyDoc \<Rightarrow> call_method h GotFocus prettyDoc s)) s"

definition selectionChanged :: "host \<Rightarrow> state \<Rightarrow> text_editor \<Rightarrow> unit result \<times> state" where
  "selectionChanged h s textEditor =
     try_catch (\<lambda>s.
       case Map_get (documents s) (uri (document textEditor)) of
         None \<Rightarrow> (Return (), s)
       | Some prettyDoc \<Rightarrow> call_method h SelectionChanged prettyDoc s) s"

subsection \<open>Resolving the language entry (lines 224 to 261)\<close>

fun getLanguageEntry_loop :: "language_entry list \<Rightarrow> string \<Rightarrow> language_entry option" where
  "getLanguageEntry_loop [] lang = None"
| "getLanguageEntry_loop (entry # rest) lang =
     (if language entry = SelectorString lang then Some entry else getLanguageEntry_loop rest lang)"

text \<open>The two calls of \<^verbatim>\<open>trace\<close> (lines 229 and 230) only log and are left out.\<close>

definition getLanguageEntry :: "state \<Rightarrow> text_document \<Rightarrow> language_entry option" where
  "getLanguageEntry s doc =
     (let lang = languageId doc in
      if lang = ''plaintext'' \<or> lang = ''jsonc'' then None
      else getLanguageEntry_loop (s_substitutions (settings s)) lang)"

subsection \<open>Opening and closing documents (lines 278 to 319)\<close>

text \<open>Line 299: \<^verbatim>\<open>documents.set(doc.uri, new PrettyDocumentController(...))\<close>.\<close>

definition createController :: "state \<Rightarrow> text_document \<Rightarrow> language_entry \<Rightarrow> grammar option \<Rightarrow> state" where
  "createController s doc lang g =
     s\<lparr>documents := Map_set (documents s) (uri doc)
          \<lparr>c_doc = doc, c_language = lang,
           c_hideTextMethod = s_hideTextMethod (settings s), c_textMateGrammar = g\<rparr>\<rparr>"

text \<open>
  \<^verbatim>\<open>openDocument\<close> is an \<^verbatim>\<open>async\<close> function: a call runs up to its first \<^verbatim>\<open>await\<close> and
  returns. It reaches the \<^verbatim>\<open>await\<close> of line 293 when a registry exists and a rule of the
  entry has a scope; the rest of the call then waits until the grammar load settles, and
  other handlers may run in between. Otherwise the controller is stored before the call
  returns. An exception of \<^verbatim>\<open>refresh\<close> is caught at line 303.
\<close>

datatype open_step = Finished state | Awaiting state pending_open

definition openDocument_start :: "host \<Rightarrow> state \<Rightarrow> text_document \<Rightarrow> open_step" where
  "openDocument_start h s doc =
     (if \<not> prettySymbolsEnabled s then Finished s
      else
        (case Map_get (documents s) (uri doc) of
           Some prettyDoc \<Rightarrow> Finished (snd (try_catch (call_method h Refresh prettyDoc) s))
         | None \<Rightarrow>
             (case getLanguageEntry s doc of
                None \<Rightarrow> Finished s
              | Some lang \<Rightarrow>
                  if length (substitutions lang) > 0 then
                    (let usesScopes = list_ex (\<lambda>x. scope x \<noteq> None) (substitutions lang) in
                     if textMateRegistry s \<noteq> None \<and> usesScopes then
                       Awaiting s
                         \<lparr>p_doc = doc, p_language = lang,
                          p_scopeName = or_else (textMateInitialScope lang)
                                                (getLanguageScopeName h (languageId doc))\<rparr>
                     else Finished (createController s doc lang None))
                  else Finished s)))"

text \<open>
  The rest of a suspended call, run when the grammar load has settled with \<open>r\<close>: a
  rejection is caught at line 294 and leaves the grammar \<^verbatim>\<open>undefined\<close>.
\<close>

definition openDocument_resume :: "state \<Rightarrow> pending_open \<Rightarrow> exn + grammar \<Rightarrow> state" where
  "openDocument_resume s p r =
     createController s (p_doc p) (p_language p) (case r of Inl err \<Rightarrow> None | Inr g \<Rightarrow> Some g)"

text \<open>What a caller of \<^verbatim>\<open>openDocument\<close> sees when the call returns.\<close>

definition openDocument :: "host \<Rightarrow> state \<Rightarrow> text_document \<Rightarrow> state" where
  "openDocument h s doc =
     (case openDocument_start h s doc of
        Finished s' \<Rightarrow> s'
      | Awaiting s' p \<Rightarrow> s'\<lparr>pending := pending s' @ [p]\<rparr>)"

text \<open>
  A call of \<^verbatim>\<open>openDocument\<close> that runs to its end with no other handler in between, the
  grammar load settling as the host says.
\<close>

definition openDocument_complete :: "host \<Rightarrow> state \<Rightarrow> text_document \<Rightarrow> state" where
  "openDocument_complete h s doc =
     (case openDocument_start h s doc of
        Finished s' \<Rightarrow> s'
      | Awaiting s' p \<Rightarrow> openDocument_resume s' p (grammar_outcome h (p_scopeName p)))"

text \<open>The grammar load of the suspended call at position \<open>i\<close> settles with \<open>r\<close>.\<close>

definition grammarSettled :: "state \<Rightarrow> nat \<Rightarrow> exn + grammar \<Rightarrow> state" where
  "grammarSettled s i r =
     (if i < length (pending s)
      then openDocument_resume (s\<lparr>pending := take i (pending s) @ drop (Suc i) (pending s)\<rparr>)
             (pending s ! i) r
      else s)"

definition closeDocument :: "state \<Rightarrow> text_document \<Rightarrow> state" where
  "closeDocument s doc =
     (case Map_get (documents s) (uri doc) of
        None \<Rightarrow> s
      | Some prettyDoc \<Rightarrow>
          s\<lparr>effects := effects s @ [Disposed prettyDoc],
            documents := Map_delete (documents s) (uri doc)\<rparr>)"

definition unloadDocuments :: "state \<Rightarrow> state" where
  "unloadDocuments s =
     s\<lparr>effects := effects s @ map Disposed (Map_values (documents s)), documents := []\<rparr>"

subsection \<open>Reloading the configuration (lines 173 to 206)\<close>

definition get_or :: "'a option \<Rightarrow> 'a \<Rightarrow> 'a" where
  "get_or v d = (case v of None \<Rightarrow> d | Some x \<Rightarrow> x)"

text \<open>The body of the loop at lines 191 to 200, for one entry.\<close>

definition setDefaults :: "settings \<Rightarrow> language_entry \<Rightarrow> language_entry" where
  "setDefaults st l =
     (let l1 = (if revealOn l = None then l\<lparr>revealOn := Some (s_revealOn st)\<rparr> else l);
          l2 = (if adjustCursorMovement l1 = None
                then l1\<lparr>adjustCursorMovement := Some (s_adjustCursorMovement st)\<rparr> else l1);
          l3 = (if prettyCursor l2 = None then l2\<lparr>prettyCursor := Some (s_prettyCursor st)\<rparr> else l2)
      in if combineIdenticalScopes l3 = None then l3\<lparr>combineIdenticalScopes := Some False\<rparr> else l3)"

fun setDefaults_loop :: "settings \<Rightarrow> language_entry list \<Rightarrow> language_entry list" where
  "setDefaults_loop st [] = []"
| "setDefaults_loop st (l # ls) = setDefaults st l # setDefaults_loop st ls"

definition readSettings :: "host \<Rightarrow> settings" where
  "readSettings h =
     \<lparr>s_substitutions = get_or (config_substitutions h) [],
      s_revealOn = get_or (config_revealOn h) ''cursor'',
      s_adjustCursorMovement = get_or (config_adjustCursorMovement h) False,
      s_prettyCursor = get_or (config_prettyCursor h) ''boxed'',
      s_hideTextMethod = get_or (config_hideTextMethod h) ''hack-letterSpacing''\<rparr>"

fun openDocuments :: "host \<Rightarrow> state \<Rightarrow> text_document list \<Rightarrow> state" where
  "openDocuments h s [] = s"
| "openDocuments h s (doc # docs) = openDocuments h (openDocument h s doc) docs"

definition reloadConfiguration :: "host \<Rightarrow> state \<Rightarrow> state" where
  "reloadConfiguration h s =
     (let s1 = s\<lparr>textMateRegistry := (if registry_throws h then None else Some Registry)\<rparr>;
          st = readSettings h;
          s2 = s1\<lparr>settings := st\<lparr>s_substitutions := setDefaults_loop st (s_substitutions st)\<rparr>\<rparr>;
          s3 = unloadDocuments s2
      in openDocuments h s3 (textDocuments h))"

definition onConfigurationChanged :: "host \<Rightarrow> state \<Rightarrow> state" where
  "onConfigurationChanged h s = reloadConfiguration h s"

subsection \<open>Enabling and disabling (lines 208 to 218 and 322 to 325)\<close>

text \<open>
  \<^verbatim>\<open>onEnabledChangeHandlers.forEach(h => h(enabled))\<close>: the observers are called in the
  order of the set. The loop has no handler, so the first observer that throws ends it,
  and the exception leaves the function that runs the loop.
\<close>

fun forEach_handler :: "host \<Rightarrow> bool \<Rightarrow> handler list \<Rightarrow> state \<Rightarrow> unit result \<times> state" where
  "forEach_handler h enabled [] s = (Return (), s)"
| "forEach_handler h enabled (obs # rest) s =
     (case observer_throws h obs enabled of
        Some e \<Rightarrow> (Throw e, s\<lparr>effects := effects s @ [Notified obs enabled]\<rparr>)
      | None \<Rightarrow> forEach_handler h enabled rest (s\<lparr>effects := effects s @ [Notified obs enabled]\<rparr>))"

definition notifyHandlers :: "host \<Rightarrow> bool \<Rightarrow> state \<Rightarrow> unit result \<times> state" where
  "notifyHandlers h enabled s = forEach_handler h enabled (onEnabledChangeHandlers s) s"

definition disablePrettySymbols :: "host \<Rightarrow> state \<Rightarrow> unit result \<times> state" where
  "disablePrettySymbols h s =
     (case notifyHandlers h False (s\<lparr>prettySymbolsEnabled := False\<rparr>) of
        (Throw e, s') \<Rightarrow> (Throw e, s')
      | (Return u, s') \<Rightarrow> (Return (), unloadDocuments s'))"

definition enablePrettySymbols :: "host \<Rightarrow> state \<Rightarrow> unit result \<times> state" where
  "enablePrettySymbols h s =
     (case notifyHandlers h True (s\<lparr>prettySymbolsEnabled := True\<rparr>) of
        (Throw e, s') \<Rightarrow> (Throw e, s')
      | (Return u, s') \<Rightarrow> (Return (), reloadConfiguration h s'))"

definition togglePrettySymbols :: "host \<Rightarrow> state \<Rightarrow> unit result \<times> state" where
  "togglePrettySymbols h s =
     (if prettySymbolsEnabled s then disablePrettySymbols h s else enablePrettySymbols h s)"

definition deactivate :: "host \<Rightarrow> state \<Rightarrow> unit result \<times> state" where
  "deactivate h s =
     (case notifyHandlers h False s of
        (Throw e, s') \<Rightarrow> (Throw e, s')
      | (Return u, s') \<Rightarrow> (Return (), unloadDocuments s'))"

subsection \<open>The exported interface (lines 106 to 128)\<close>

definition onDidEnabledChange :: "state \<Rightarrow> handler \<Rightarrow> state" where
  "onDidEnabledChange s handler =
     s\<lparr>onEnabledChangeHandlers := Set_add (onEnabledChangeHandlers s) handler\<rparr>"

definition onDidEnabledChange_dispose :: "state \<Rightarrow> handler \<Rightarrow> state" where
  "onDidEnabledChange_dispose s handler =
     s\<lparr>onEnabledChangeHandlers := Set_delete (onEnabledChangeHandlers s) handler\<rparr>"

definition isEnabled :: "state \<Rightarrow> bool" where
  "isEnabled s = prettySymbolsEnabled s"

definition registerSubstitutions :: "host \<Rightarrow> state \<Rightarrow> object_ref \<times> language_entry \<Rightarrow> state" where
  "registerSubstitutions h s entry =
     reloadConfiguration h
       (s\<lparr>additionalSubstitutions := Set_add_object (additionalSubstitutions s) entry\<rparr>)"

definition registerSubstitutions_dispose :: "state \<Rightarrow> object_ref \<times> language_entry \<Rightarrow> state" where
  "registerSubstitutions_dispose s entry =
     s\<lparr>additionalSubstitutions := Set_delete_object (additionalSubstitutions s) entry\<rparr>"

subsection \<open>Activation (lines 14 to 23 and 73 to 131)\<close>

text \<open>
  The module's variables as they are initialised. \<^verbatim>\<open>settings\<close> has no initial value: it is
  first assigned by the \<^verbatim>\<open>reloadConfiguration\<close> that \<^verbatim>\<open>activate\<close> runs, before any handler
  can read it, so the value it has here is never read.
\<close>

definition unassigned_settings :: settings where
  "unassigned_settings =
     \<lparr>s_substitutions = [], s_revealOn = [], s_adjustCursorMovement = False,
      s_prettyCursor = [], s_hideTextMethod = []\<rparr>"

definition initial_state :: state where
  "initial_state =
     \<lparr>prettySymbolsEnabled = True, documents = [], settings = unassigned_settings,
      onEnabledChangeHandlers = [], additionalSubstitutions = [],
      textMateRegistry = None, pending = [], effects = []\<rparr>"

definition activate :: "host \<Rightarrow> state" where
  "activate h = reloadConfiguration h initial_state"


subsection \<open>The handlers as the host calls them\<close>

text \<open>
  The host calls a handler and goes on with the state the handler left, also when the
  handler has thrown.
\<close>

datatype event =
    DidOpenTextDocument text_document
  | DidCloseTextDocument text_document
  | DidChangeConfiguration
  | DidChangeTextEditorSelection text_editor
  | DidChangeActiveTextEditor "text_editor option"
  | CopyWithSubstitutions "text_editor option"
  | DisablePrettySymbols
  | EnablePrettySymbols
  | TogglePrettySymbols
  | OnDidEnabledChange handler
  | OnDidEnabledChangeDispose handler
  | RegisterSubstitutions "object_ref \<times> language_entry"
  | RegisterSubstitutionsDispose "object_ref \<times> language_entry"
  | GrammarSettled nat "exn + grammar"

fun step :: "host \<Rightarrow> state \<Rightarrow> event \<Rightarrow> state" where
  "step h s (DidOpenTextDocument doc) = openDocument h s doc"
| "step h s (DidCloseTextDocument doc) = closeDocument s doc"
| "step h s DidChangeConfiguration = onConfigurationChanged h s"
| "step h s (DidChangeTextEditorSelection ed) = snd (selectionChanged h s ed)"
| "step h s (DidChangeActiveTextEditor ed) = snd (changeActiveTextEditor h s ed)"
| "step h s (CopyWithSubstitutions ed) = snd (copyWithSubstitutions h s ed)"
| "step h s DisablePrettySymbols = snd (disablePrettySymbols h s)"
| "step h s EnablePrettySymbols = snd (enablePrettySymbols h s)"
| "step h s TogglePrettySymbols = snd (togglePrettySymbols h s)"
| "step h s (OnDidEnabledChange obs) = onDidEnabledChange s obs"
| "step h s (OnDidEnabledChangeDispose obs) = onDidEnabledChange_dispose s obs"
| "step h s (RegisterSubstitutions entry) = registerSubstitutions h s entry"
| "step h s (RegisterSubstitutionsDispose entry) = registerSubstitutions_dispose s entry"
| "step h s (GrammarSettled i r) = grammarSettled s i r"

text \<open>A sequence of events, each with the host as it is when the event is handled.\<close>

fun run :: "state \<Rightarrow> (host \<times> event) list \<Rightarrow> state" where
  "run s [] = s"
| "run s ((h, e) # es) = run (step h s e) es"


section \<open>The coordinate map\<close>

text \<open>
  Modelled from the spec: the Coordinate Mapper (\<^verbatim>\<open>CoordinateMap\<close>, \<^verbatim>\<open>toPretty\<close>, \<^verbatim>\<open>toRaw\<close>) and
  the \<^verbatim>\<open>Match\<close> it is built from are not in \<^verbatim>\<open>extension.ts\<close>; they belong to the
  controller of \<^verbatim>\<open>./document\<close>. The definitions follow sections 3 and 4.5 of the
  specification. A match is a raw range \<open>[m_start, m_end)\<close> on a line with its glyph, of
  which the map needs the length in visual units, and its reveal state. A breakpoint is
  the quadruple of raw offset, pretty offset, raw length and pretty length.
\<close>

record match_span =
  m_start :: nat
  m_end :: nat
  glyph_units :: nat
  revealed :: bool

record breakpoint =
  raw_offset :: nat
  pretty_offset :: nat
  raw_length :: nat
  pretty_length :: nat

text \<open>
  Modelled from the spec: breakpoints are built only from the matches that are not
  revealed. \<open>r\<close> and \<open>p\<close> are the raw and the pretty offset just after the last match that
  gave a breakpoint; between two breakpoints both offsets advance alike.
\<close>

fun buildMap_from :: "nat \<Rightarrow> nat \<Rightarrow> match_span list \<Rightarrow> breakpoint list" where
  "buildMap_from r p [] = []"
| "buildMap_from r p (m # ms) =
     (if revealed m then buildMap_from r p ms
      else
        \<lparr>raw_offset = m_start m, pretty_offset = p + (m_start m - r),
         raw_length = m_end m - m_start m, pretty_length = glyph_units m\<rparr>
        # buildMap_from (m_end m) (p + (m_start m - r) + glyph_units m) ms)"

definition buildMap :: "match_span list \<Rightarrow> breakpoint list" where
  "buildMap ms = buildMap_from 0 0 ms"

text \<open>Modelled from the spec: the last breakpoint at or before an offset.\<close>

fun last_at_or_before :: "(breakpoint \<Rightarrow> nat) \<Rightarrow> breakpoint list \<Rightarrow> nat \<Rightarrow> breakpoint option" where
  "last_at_or_before key [] x = None"
| "last_at_or_before key (b # bs) x =
     (case last_at_or_before key bs x of
        Some b' \<Rightarrow> Some b'
      | None \<Rightarrow> if key b \<le> x then Some b else None)"

text \<open>
  Modelled from the spec: \<^verbatim>\<open>toPretty\<close> finds the last breakpoint at or before the raw
  offset and applies its constant offset; a raw offset inside the collapsed range snaps
  to the edge of the glyph that is closer to it (to the start when both are as close).
  Before the first breakpoint the offsets agree.
\<close>

definition pretty_at :: "breakpoint \<Rightarrow> nat \<Rightarrow> nat" where
  "pretty_at b x =
     (if raw_offset b + raw_length b \<le> x
      then pretty_offset b + pretty_length b + (x - (raw_offset b + raw_length b))
      else if 2 * (x - raw_offset b) \<le> raw_length b then pretty_offset b
      else pretty_offset b + pretty_length b)"

definition toPretty :: "breakpoint list \<Rightarrow> nat \<Rightarrow> nat" where
  "toPretty cm x = (case last_at_or_before raw_offset cm x of None \<Rightarrow> x | Some b \<Rightarrow> pretty_at b x)"

text \<open>
  Modelled from the spec: \<^verbatim>\<open>toRaw\<close> is the inverse; a pretty offset inside a glyph of
  several units has no exact raw counterpart and goes to the nearer raw boundary.
\<close>

definition raw_at :: "breakpoint \<Rightarrow> nat \<Rightarrow> nat" where
  "raw_at b p =
     (if pretty_offset b + pretty_length b \<le> p
      then raw_offset b + raw_length b + (p - (pretty_offset b + pretty_length b))
      else if 2 * (p - pretty_offset b) \<le> pretty_length b then raw_offset b
      else raw_offset b + raw_length b)"

definition toRaw :: "breakpoint list \<Rightarrow> nat \<Rightarrow> nat" where
  "toRaw cm p = (case last_at_or_before pretty_offset cm p of None \<Rightarrow> p | Some b \<Rightarrow> raw_at b p)"

text \<open>
  Modelled from the spec: the matches of a line are sorted by start offset and do not
  overlap, a pattern never matches empty text, and a glyph is at least one visual unit.
\<close>

fun matches_ok_from :: "nat \<Rightarrow> match_span list \<Rightarrow> bool" where
  "matches_ok_from r [] = True"
| "matches_ok_from r (m # ms) =
     (r \<le> m_start m \<and> m_start m < m_end m \<and> 0 < glyph_units m \<and> matches_ok_from (m_end m) ms)"

definition matches_ok :: "match_span list \<Rightarrow> bool" where
  "matches_ok ms = matches_ok_from 0 ms"

text \<open>
  An offset is on a boundary when it is not strictly inside a collapsed range (raw), or
  not strictly inside a glyph (pretty). These are the offsets that have an exact
  counterpart on the other side.
\<close>

definition on_raw_boundary :: "breakpoint list \<Rightarrow> nat \<Rightarrow> bool" where
  "on_raw_boundary cm x =
     list_all (\<lambda>b. x \<le> raw_offset b \<or> raw_offset b + raw_length b \<le> x) cm"

definition on_pretty_boundary :: "breakpoint list \<Rightarrow> nat \<Rightarrow> bool" where
  "on_pretty_boundary cm p =
     list_all (\<lambda>b. p \<le> pretty_offset b \<or> pretty_offset b + pretty_length b \<le> p) cm"

text \<open>
  For the proofs: a list of breakpoints that continues from the offsets \<open>r\<close> and \<open>p\<close>, and
  the two translations for such a list.
\<close>

fun chained :: "nat \<Rightarrow> nat \<Rightarrow> breakpoint list \<Rightarrow> bool" where
  "chained r p [] = True"
| "chained r p (b # bs) =
     (r \<le> raw_offset b \<and> pretty_offset b = p + (raw_offset b - r)
      \<and> 0 < raw_length b \<and> 0 < pretty_length b
      \<and> chained (raw_offset b + raw_length b) (pretty_offset b + pretty_length b) bs)"

definition toPretty_from :: "nat \<Rightarrow> nat \<Rightarrow> breakpoint list \<Rightarrow> nat \<Rightarrow> nat" where
  "toPretty_from r p cm x =
     (case last_at_or_before raw_offset cm x of None \<Rightarrow> p + (x - r) | Some b \<Rightarrow> pretty_at b x)"

definition toRaw_from :: "nat \<Rightarrow> nat \<Rightarrow> breakpoint list \<Rightarrow> nat \<Rightarrow> nat" where
  "toRaw_from r p cm y =
     (case last_at_or_before pretty_offset cm y of None \<Rightarrow> r + (y - p) | Some b \<Rightarrow> raw_at b y)"


section \<open>Example inputs\<close>

definition plain_host :: host where
  "plain_host =
     \<lparr>config_substitutions = None, config_revealOn = None, config_adjustCursorMovement = None,
      config_prettyCursor = None, config_hideTextMethod = None, textDocuments = [],
      contributed_grammars = Some [], registry_throws = False,
      grammar_outcome = (\<lambda>n. Inl (Error ''no grammar'')),
      session_throws = (\<lambda>m c. None), observer_throws = (\<lambda>obs enabled. None)\<rparr>"

definition entry_for :: "string \<Rightarrow> substitution list \<Rightarrow> language_entry" where
  "entry_for lang rules =
     \<lparr>language = SelectorString lang, substitutions = rules, revealOn = None,
      adjustCursorMovement = None, prettyCursor = None, combineIdenticalScopes = None,
      textMateInitialScope = None\<rparr>"

definition arrow_rule :: substitution where
  "arrow_rule = \<lparr>pattern = ''->'', glyph = ''rightarrow'', scope = None\<rparr>"

definition lambda_rule :: substitution where
  "lambda_rule = \<lparr>pattern = ''fun'', glyph = ''lambda'', scope = Some ''keyword.other''\<rparr>"

definition host_with :: "language_entry list \<Rightarrow> text_document list \<Rightarrow> host" where
  "host_with entries docs = plain_host\<lparr>config_substitutions := Some entries, textDocuments := docs\<rparr>"

definition no_registry_host :: "language_entry list \<Rightarrow> host" where
  "no_registry_host entries = (host_with entries [])\<lparr>registry_throws := True\<rparr>"

definition faulty_host :: host where
  "faulty_host = plain_host\<lparr>session_throws := (\<lambda>m c. Some (Error ''fault''))\<rparr>"

definition throwing_observer_host :: host where
  "throwing_observer_host =
     plain_host\<lparr>observer_throws :=
       (\<lambda>obs enabled. if obs = 1 then Some (Error ''observer fault'') else None)\<rparr>"

definition doc_of :: "string \<Rightarrow> string \<Rightarrow> text_document" where
  "doc_of u lang = \<lparr>uri = u, languageId = lang\<rparr>"

definition example_matches :: "match_span list" where
  "example_matches =
     [\<lparr>m_start = 2, m_end = 7, glyph_units = 1, revealed = False\<rparr>,
      \<lparr>m_start = 7, m_end = 9, glyph_units = 1, revealed = True\<rparr>,
      \<lparr>m_start = 10, m_end = 12, glyph_units = 1, revealed = False\<rparr>]"


section \<open>Facts about the containers\<close>

lemma Map_get_set_same: "Map_get (Map_set m k v) k = Some v"
  by (induction m) auto

lemma Map_get_set_other: "k' \<noteq> k \<Longrightarrow> Map_get (Map_set m k v) k' = Map_get m k'"
  by (induction m) auto

lemma Map_get_delete_same: "Map_get (Map_delete m k) k = None"
  by (induction m) (auto simp: Map_delete_def)

lemma Map_get_delete_other: "k' \<noteq> k \<Longrightarrow> Map_get (Map_delete m k) k' = Map_get m k'"
  by (induction m) (auto simp: Map_delete_def)

lemma Map_delete_absent: "Map_get m k = None \<Longrightarrow> Map_delete m k = m"
  by (induction m) (auto simp: Map_delete_def split: if_splits)


section \<open>The ways a call of openDocument can go\<close>

lemma openDocument_start_cases:
  "openDocument_start h s doc = Finished s
   \<or> (\<exists>c. Map_get (documents s) (uri doc) = Some c
          \<and> openDocument_start h s doc = Finished (s\<lparr>effects := effects s @ [Called Refresh c]\<rparr>))
   \<or> (\<exists>l. prettySymbolsEnabled s \<and> getLanguageEntry s doc = Some l
          \<and> openDocument_start h s doc = Finished (createController s doc l None))
   \<or> (\<exists>p. prettySymbolsEnabled s \<and> p_doc p = doc \<and> getLanguageEntry s doc = Some (p_language p)
          \<and> openDocument_start h s doc = Awaiting s p)"
  by (auto simp: openDocument_start_def try_catch_def call_method_def Let_def split: option.splits)


section \<open>Evaluating the functions on given inputs\<close>

lemmas example_defs =
  plain_host_def host_with_def no_registry_host_def throwing_observer_host_def entry_for_def
  arrow_rule_def lambda_rule_def doc_of_def

lemmas handler_defs =
  activate_def initial_state_def reloadConfiguration_def readSettings_def get_or_def
  setDefaults_def unloadDocuments_def Map_values_def Map_delete_def Set_add_def Set_delete_def
  Set_add_object_def Set_delete_object_def
  openDocument_def openDocument_start_def openDocument_complete_def openDocument_resume_def
  grammarSettled_def createController_def getLanguageEntry_def getLanguageScopeName_def
  or_else_def try_catch_def call_method_def closeDocument_def notifyHandlers_def
  disablePrettySymbols_def enablePrettySymbols_def togglePrettySymbols_def deactivate_def
  onDidEnabledChange_def onDidEnabledChange_dispose_def registerSubstitutions_def
  registerSubstitutions_dispose_def onConfigurationChanged_def selectionChanged_def
  copyWithSubstitutions_def changeActiveTextEditor_def Let_def


section \<open>Resolution of the language entry\<close>

lemma getLanguageEntry_loop_None:
  "getLanguageEntry_loop es lang = None \<longleftrightarrow> (\<forall>e \<in> set es. language e \<noteq> SelectorString lang)"
  by (induction es) auto

lemma getLanguageEntry_loop_Some:
  "getLanguageEntry_loop es lang = Some e \<longleftrightarrow>
     (\<exists>i < length es. es ! i = e \<and> language e = SelectorString lang \<and>
        (\<forall>j < i. language (es ! j) \<noteq> SelectorString lang))"
proof (induction es)
  case Nil
  then show ?case by simp
next
  case (Cons a es)
  show ?case
  proof (cases "language a = SelectorString lang")
    case True
    have "(\<exists>i < length (a # es). (a # es) ! i = e \<and> language e = SelectorString lang \<and>
        (\<forall>j < i. language ((a # es) ! j) \<noteq> SelectorString lang)) \<longleftrightarrow> a = e"
    proof
      assume "\<exists>i < length (a # es). (a # es) ! i = e \<and> language e = SelectorString lang \<and>
        (\<forall>j < i. language ((a # es) ! j) \<noteq> SelectorString lang)"
      then obtain i where i: "i < length (a # es)" "(a # es) ! i = e"
        "\<forall>j < i. language ((a # es) ! j) \<noteq> SelectorString lang" by blast
      have "i = 0"
      proof (rule ccontr)
        assume "i \<noteq> 0"
        then have "0 < i" by simp
        with i(3) have "language ((a # es) ! 0) \<noteq> SelectorString lang" by blast
        with True show False by simp
      qed
      with i(2) show "a = e" by simp
    next
      assume "a = e"
      with True show "\<exists>i < length (a # es). (a # es) ! i = e \<and> language e = SelectorString lang \<and>
        (\<forall>j < i. language ((a # es) ! j) \<noteq> SelectorString lang)"
        by (intro exI[of _ 0]) simp
    qed
    with True show ?thesis by simp
  next
    case False
    have "(\<exists>i < length (a # es). (a # es) ! i = e \<and> language e = SelectorString lang \<and>
        (\<forall>j < i. language ((a # es) ! j) \<noteq> SelectorString lang)) \<longleftrightarrow>
        (\<exists>i < length es. es ! i = e \<and> language e = SelectorString lang \<and>
        (\<forall>j < i. language (es ! j) \<noteq> SelectorString lang))" (is "?L \<longleftrightarrow> ?R")
    proof
      assume ?L
      then obtain i where i: "i < length (a # es)" "(a # es) ! i = e" "language e = SelectorString lang"
        "\<forall>j < i. language ((a # es) ! j) \<noteq> SelectorString lang" by blast
      from i(2,3) False have "i \<noteq> 0" by (cases i) auto
      then obtain k where k: "i = Suc k" by (cases i) auto
      have "\<forall>j < k. language (es ! j) \<noteq> SelectorString lang"
      proof (intro allI impI)
        fix j assume "j < k"
        then have "Suc j < i" using k by simp
        with i(4) have "language ((a # es) ! Suc j) \<noteq> SelectorString lang" by blast
        then show "language (es ! j) \<noteq> SelectorString lang" by simp
      qed
      with i k show ?R by (intro exI[of _ k]) simp
    next
      assume ?R
      then obtain k where k: "k < length es" "es ! k = e" "language e = SelectorString lang"
        "\<forall>j < k. language (es ! j) \<noteq> SelectorString lang" by blast
      have "\<forall>j < Suc k. language ((a # es) ! j) \<noteq> SelectorString lang"
      proof (intro allI impI)
        fix j assume "j < Suc k"
        then show "language ((a # es) ! j) \<noteq> SelectorString lang"
          using False k(4) by (cases j) auto
      qed
      with k show ?L by (intro exI[of _ "Suc k"]) simp
    qed
    with False Cons.IH show ?thesis by simp
  qed
qed

text \<open>
  C10. For a document whose \<^verbatim>\<open>languageId\<close> is \<^verbatim>\<open>plaintext\<close> or \<^verbatim>\<open>jsonc\<close>,
  \<^verbatim>\<open>getLanguageEntry\<close> returns \<^verbatim>\<open>undefined\<close> whatever the configured substitutions are, and
  opening the document adds no controller to \<^verbatim>\<open>documents\<close> and suspends no call, be the
  call seen when it returns or run to its end.
\<close>

theorem plaintext_jsonc_never_get_a_session:
  assumes "languageId doc = ''plaintext'' \<or> languageId doc = ''jsonc''"
  shows "getLanguageEntry s doc = None
       \<and> documents (openDocument h s doc) = documents s
       \<and> pending (openDocument h s doc) = pending s
       \<and> documents (openDocument_complete h s doc) = documents s"
proof -
  have g: "getLanguageEntry s doc = None"
    using assms by (auto simp: getLanguageEntry_def)
  have st: "openDocument_start h s doc = Finished s \<or>
      (\<exists>c. openDocument_start h s doc = Finished (s\<lparr>effects := effects s @ [Called Refresh c]\<rparr>))"
    using g by (auto simp: openDocument_start_def try_catch_def call_method_def split: option.splits)
  then show ?thesis
    using g by (auto simp: openDocument_def openDocument_complete_def)
qed

theorem plaintext_jsonc_never_get_a_session_witness:
  "(languageId (doc_of ''notes.txt'' ''plaintext'') = ''plaintext''
      \<or> languageId (doc_of ''notes.txt'' ''plaintext'') = ''jsonc'')
   \<and> getLanguageEntry (activate (host_with [entry_for ''plaintext'' [arrow_rule]] []))
         (doc_of ''notes.txt'' ''plaintext'') = None
   \<and> documents (openDocument plain_host
         (activate (host_with [entry_for ''plaintext'' [arrow_rule]] []))
         (doc_of ''notes.txt'' ''plaintext'')) = []"
  using plaintext_jsonc_never_get_a_session
    [of "doc_of ''notes.txt'' ''plaintext''"
        "activate (host_with [entry_for ''plaintext'' [arrow_rule]] [])" plain_host]
  by (simp add: handler_defs example_defs)

text \<open>
  C2, as stated, fails: with the single configured entry for \<^verbatim>\<open>plaintext\<close>, whose
  \<^verbatim>\<open>language\<close> equals the \<^verbatim>\<open>languageId\<close> of the document, the resolution returns
  \<^verbatim>\<open>undefined\<close>, not that entry.
\<close>

theorem getLanguageEntry_plaintext_counterexample:
  "getLanguageEntry (activate (host_with [entry_for ''plaintext'' [arrow_rule]] []))
     (doc_of ''notes.txt'' ''plaintext'') = None
   \<and> language (hd (s_substitutions (settings
         (activate (host_with [entry_for ''plaintext'' [arrow_rule]] [])))))
       = SelectorString (languageId (doc_of ''notes.txt'' ''plaintext''))"
  by (simp add: handler_defs example_defs)

text \<open>
  C2, amended. For a document whose \<^verbatim>\<open>languageId\<close> is neither \<^verbatim>\<open>plaintext\<close> nor
  \<^verbatim>\<open>jsonc\<close>, \<^verbatim>\<open>getLanguageEntry\<close> returns the first entry of \<^verbatim>\<open>settings.substitutions\<close>
  whose \<^verbatim>\<open>language\<close> is strictly equal to the \<^verbatim>\<open>languageId\<close> (no entry before it is), and
  \<^verbatim>\<open>undefined\<close> when no entry's \<^verbatim>\<open>language\<close> is equal to it.
\<close>

theorem getLanguageEntry_first_exact_match:
  assumes "languageId doc \<noteq> ''plaintext''" and "languageId doc \<noteq> ''jsonc''"
  shows "case getLanguageEntry s doc of
           None \<Rightarrow> \<forall>e \<in> set (s_substitutions (settings s)). language e \<noteq> SelectorString (languageId doc)
         | Some e \<Rightarrow>
             \<exists>i < length (s_substitutions (settings s)).
               s_substitutions (settings s) ! i = e \<and> language e = SelectorString (languageId doc) \<and>
               (\<forall>j < i. language (s_substitutions (settings s) ! j) \<noteq> SelectorString (languageId doc))"
proof (cases "getLanguageEntry s doc")
  case None
  then have "getLanguageEntry_loop (s_substitutions (settings s)) (languageId doc) = None"
    using assms by (simp add: getLanguageEntry_def)
  then have "\<forall>e \<in> set (s_substitutions (settings s)). language e \<noteq> SelectorString (languageId doc)"
    by (simp add: getLanguageEntry_loop_None)
  with None show ?thesis by simp
next
  case (Some e)
  then have "getLanguageEntry_loop (s_substitutions (settings s)) (languageId doc) = Some e"
    using assms by (simp add: getLanguageEntry_def)
  then have "\<exists>i < length (s_substitutions (settings s)).
               s_substitutions (settings s) ! i = e \<and> language e = SelectorString (languageId doc) \<and>
               (\<forall>j < i. language (s_substitutions (settings s) ! j) \<noteq> SelectorString (languageId doc))"
    by (simp add: getLanguageEntry_loop_Some)
  with Some show ?thesis by simp
qed

theorem getLanguageEntry_first_exact_match_witness:
  "languageId (doc_of ''a.hs'' ''haskell'') \<noteq> ''plaintext''
   \<and> languageId (doc_of ''a.hs'' ''haskell'') \<noteq> ''jsonc''
   \<and> getLanguageEntry
         (initial_state\<lparr>settings := readSettings (host_with
            [entry_for ''ocaml'' [arrow_rule], entry_for ''haskell'' [arrow_rule],
             entry_for ''haskell'' [lambda_rule]] [])\<rparr>)
         (doc_of ''a.hs'' ''haskell'') = Some (entry_for ''haskell'' [arrow_rule])"
  using getLanguageEntry_first_exact_match
    [of "doc_of ''a.hs'' ''haskell''"
        "initial_state\<lparr>settings := readSettings (host_with
            [entry_for ''ocaml'' [arrow_rule], entry_for ''haskell'' [arrow_rule],
             entry_for ''haskell'' [lambda_rule]] [])\<rparr>"]
  by (simp add: handler_defs example_defs)


section \<open>Reloading the configuration\<close>

lemma openDocument_frame:
  "settings (openDocument h s doc) = settings s
   \<and> prettySymbolsEnabled (openDocument h s doc) = prettySymbolsEnabled s
   \<and> onEnabledChangeHandlers (openDocument h s doc) = onEnabledChangeHandlers s
   \<and> additionalSubstitutions (openDocument h s doc) = additionalSubstitutions s
   \<and> textMateRegistry (openDocument h s doc) = textMateRegistry s"
  using openDocument_start_cases[of h s doc]
  by (auto simp: openDocument_def createController_def)

lemma openDocuments_frame:
  "settings (openDocuments h s docs) = settings s
   \<and> prettySymbolsEnabled (openDocuments h s docs) = prettySymbolsEnabled s
   \<and> onEnabledChangeHandlers (openDocuments h s docs) = onEnabledChangeHandlers s
   \<and> additionalSubstitutions (openDocuments h s docs) = additionalSubstitutions s
   \<and> textMateRegistry (openDocuments h s docs) = textMateRegistry s"
  by (induction docs arbitrary: s) (simp_all add: openDocument_frame)

lemma setDefaults_loop_length: "length (setDefaults_loop st ls) = length ls"
  by (induction ls) auto

lemma setDefaults_loop_nth: "i < length ls \<Longrightarrow> setDefaults_loop st ls ! i = setDefaults st (ls ! i)"
  by (induction ls arbitrary: i) (auto simp: nth_Cons split: nat.splits)

lemma reloadConfiguration_settings:
  "settings (reloadConfiguration h s) =
     (readSettings h)\<lparr>s_substitutions := setDefaults_loop (readSettings h) (s_substitutions (readSettings h))\<rparr>"
  by (simp add: reloadConfiguration_def Let_def openDocuments_frame unloadDocuments_def)

lemma setDefaults_fields:
  "revealOn (setDefaults st l) = (case revealOn l of None \<Rightarrow> Some (s_revealOn st) | Some v \<Rightarrow> Some v)
   \<and> adjustCursorMovement (setDefaults st l) =
       (case adjustCursorMovement l of None \<Rightarrow> Some (s_adjustCursorMovement st) | Some v \<Rightarrow> Some v)
   \<and> prettyCursor (setDefaults st l) = (case prettyCursor l of None \<Rightarrow> Some (s_prettyCursor st) | Some v \<Rightarrow> Some v)
   \<and> combineIdenticalScopes (setDefaults st l) =
       (case combineIdenticalScopes l of None \<Rightarrow> Some False | Some v \<Rightarrow> Some v)
   \<and> language (setDefaults st l) = language l
   \<and> substitutions (setDefaults st l) = substitutions l
   \<and> textMateInitialScope (setDefaults st l) = textMateInitialScope l"
  by (simp add: setDefaults_def Let_def split: option.splits)

text \<open>
  C4. After \<^verbatim>\<open>reloadConfiguration\<close> the loaded settings hold one entry for each configured
  entry, in the same order. In each, a field among \<^verbatim>\<open>revealOn\<close>, \<^verbatim>\<open>adjustCursorMovement\<close>
  and \<^verbatim>\<open>prettyCursor\<close> that was \<^verbatim>\<open>undefined\<close> holds the global setting of that name (the
  configured value, or \<^verbatim>\<open>cursor\<close>, \<^verbatim>\<open>false\<close>, \<^verbatim>\<open>boxed\<close> when that is not configured
  either), an \<^verbatim>\<open>undefined\<close> \<^verbatim>\<open>combineIdenticalScopes\<close> holds \<^verbatim>\<open>false\<close>, and a field that was
  set, like every other field of the entry, is as configured.
\<close>

theorem reloadConfiguration_applies_defaults:
  assumes "i < length (get_or (config_substitutions h) [])"
  shows "let configured = get_or (config_substitutions h) [] ! i;
             st = settings (reloadConfiguration h s);
             l = s_substitutions st ! i
         in length (s_substitutions st) = length (get_or (config_substitutions h) [])
          \<and> s_revealOn st = get_or (config_revealOn h) ''cursor''
          \<and> s_adjustCursorMovement st = get_or (config_adjustCursorMovement h) False
          \<and> s_prettyCursor st = get_or (config_prettyCursor h) ''boxed''
          \<and> revealOn l = (case revealOn configured of None \<Rightarrow> Some (s_revealOn st) | Some v \<Rightarrow> Some v)
          \<and> adjustCursorMovement l =
              (case adjustCursorMovement configured of
                 None \<Rightarrow> Some (s_adjustCursorMovement st) | Some v \<Rightarrow> Some v)
          \<and> prettyCursor l =
              (case prettyCursor configured of None \<Rightarrow> Some (s_prettyCursor st) | Some v \<Rightarrow> Some v)
          \<and> combineIdenticalScopes l =
              (case combineIdenticalScopes configured of None \<Rightarrow> Some False | Some v \<Rightarrow> Some v)
          \<and> language l = language configured
          \<and> substitutions l = substitutions configured
          \<and> textMateInitialScope l = textMateInitialScope configured"
  using assms
  by (simp add: reloadConfiguration_settings readSettings_def setDefaults_loop_length
      setDefaults_loop_nth setDefaults_fields Let_def split: option.splits)

theorem reloadConfiguration_applies_defaults_witness:
  "(0::nat) < length (get_or (config_substitutions
       (host_with [(entry_for ''haskell'' [arrow_rule])\<lparr>revealOn := Some ''selection''\<rparr>] [])) [])
   \<and> s_substitutions (settings (reloadConfiguration
        (host_with [(entry_for ''haskell'' [arrow_rule])\<lparr>revealOn := Some ''selection''\<rparr>] [])
        initial_state)) ! 0
     = \<lparr>language = SelectorString ''haskell'', substitutions = [arrow_rule],
        revealOn = Some ''selection'', adjustCursorMovement = Some False,
        prettyCursor = Some ''boxed'', combineIdenticalScopes = Some False,
        textMateInitialScope = None\<rparr>"
  using reloadConfiguration_applies_defaults
    [of 0 "host_with [(entry_for ''haskell'' [arrow_rule])\<lparr>revealOn := Some ''selection''\<rparr>] []"
        initial_state]
  by (simp add: handler_defs example_defs)


section \<open>Handlers that forward to a controller\<close>

text \<open>
  C6. Each of \<^verbatim>\<open>selectionChanged\<close>, \<^verbatim>\<open>copyWithSubstitutions\<close> and
  \<^verbatim>\<open>changeActiveTextEditor\<close> returns normally, whether or not the method it calls on the
  controller throws. The only controller it calls is the one stored for the event's
  document, and apart from the record of that call the state, with every document's
  controller in it, is as it was.
\<close>

theorem session_faults_are_caught:
  "selectionChanged h s ed =
     (Return (), s\<lparr>effects := effects s @
        (case Map_get (documents s) (uri (document ed)) of
           None \<Rightarrow> [] | Some c \<Rightarrow> [Called SelectionChanged c])\<rparr>)
   \<and> copyWithSubstitutions h s editor =
     (Return (), s\<lparr>effects := effects s @
        (case editor of None \<Rightarrow> []
         | Some ed \<Rightarrow> (case Map_get (documents s) (uri (document ed)) of
                        None \<Rightarrow> [] | Some c \<Rightarrow> [Called CopyDecorated c]))\<rparr>)
   \<and> changeActiveTextEditor h s editor =
     (Return (), s\<lparr>effects := effects s @
        (case editor of None \<Rightarrow> []
         | Some ed \<Rightarrow> (case Map_get (documents s) (uri (document ed)) of
                        None \<Rightarrow> [] | Some c \<Rightarrow> [Called GotFocus c]))\<rparr>)"
  by (simp add: selectionChanged_def copyWithSubstitutions_def changeActiveTextEditor_def
      try_catch_def call_method_def split: option.splits result.splits)

theorem session_faults_are_caught_witness:
  "session_throws faulty_host SelectionChanged
      (the (Map_get (documents (activate (host_with [entry_for ''haskell'' [arrow_rule]]
                                            [doc_of ''a.hs'' ''haskell''])))
              ''a.hs'')) = Some (Error ''fault'')
   \<and> fst (selectionChanged faulty_host
        (activate (host_with [entry_for ''haskell'' [arrow_rule]] [doc_of ''a.hs'' ''haskell'']))
        \<lparr>document = doc_of ''a.hs'' ''haskell''\<rparr>) = Return ()
   \<and> documents (snd (selectionChanged faulty_host
        (activate (host_with [entry_for ''haskell'' [arrow_rule]] [doc_of ''a.hs'' ''haskell'']))
        \<lparr>document = doc_of ''a.hs'' ''haskell''\<rparr>))
     = documents (activate (host_with [entry_for ''haskell'' [arrow_rule]]
                              [doc_of ''a.hs'' ''haskell'']))
   \<and> fst (copyWithSubstitutions faulty_host
        (activate (host_with [entry_for ''haskell'' [arrow_rule]] [doc_of ''a.hs'' ''haskell'']))
        (Some \<lparr>document = doc_of ''a.hs'' ''haskell''\<rparr>)) = Return ()
   \<and> fst (changeActiveTextEditor faulty_host
        (activate (host_with [entry_for ''haskell'' [arrow_rule]] [doc_of ''a.hs'' ''haskell'']))
        (Some \<lparr>document = doc_of ''a.hs'' ''haskell''\<rparr>)) = Return ()"
  using session_faults_are_caught
    [of faulty_host
        "activate (host_with [entry_for ''haskell'' [arrow_rule]] [doc_of ''a.hs'' ''haskell''])"
        "\<lparr>document = doc_of ''a.hs'' ''haskell''\<rparr>"
        "Some \<lparr>document = doc_of ''a.hs'' ''haskell''\<rparr>"]
  by (simp add: faulty_host_def handler_defs example_defs)


section \<open>Opening and closing a document\<close>

text \<open>
  A call that runs to its end is the call as its caller sees it, followed, when the call
  was suspended, by the settling of its grammar load.
\<close>

lemma openDocument_complete_by_steps:
  "openDocument_complete h s doc =
     (case openDocument_start h s doc of
        Finished s' \<Rightarrow> openDocument h s doc
      | Awaiting s' p \<Rightarrow>
          grammarSettled (openDocument h s doc) (length (pending s))
            (grammar_outcome h (p_scopeName p)))"
proof (cases "openDocument_start h s doc")
  case (Finished s')
  then show ?thesis by (simp add: openDocument_complete_def openDocument_def)
next
  case (Awaiting s' p)
  then have s': "s' = s" using openDocument_start_cases[of h s doc] by auto
  have "(s\<lparr>pending := pending s @ [p]\<rparr>)\<lparr>pending := pending s\<rparr> = s" by simp
  then show ?thesis
    using Awaiting s'
    by (simp add: openDocument_complete_def openDocument_def grammarSettled_def)
qed

text \<open>What a complete open leaves under the document's key.\<close>

lemma openDocument_complete_lookup:
  assumes "prettySymbolsEnabled s" and "Map_get (documents s) (uri doc) = None"
  shows "Map_get (documents (openDocument_complete h s doc)) (uri doc) =
     (case getLanguageEntry s doc of
        None \<Rightarrow> None
      | Some l \<Rightarrow>
          if substitutions l = [] then None
          else Some \<lparr>c_doc = doc, c_language = l,
                     c_hideTextMethod = s_hideTextMethod (settings s),
                     c_textMateGrammar =
                       (if textMateRegistry s \<noteq> None \<and> list_ex (\<lambda>x. scope x \<noteq> None) (substitutions l)
                        then (case grammar_outcome h
                                (or_else (textMateInitialScope l) (getLanguageScopeName h (languageId doc))) of
                                Inl err \<Rightarrow> None | Inr g \<Rightarrow> Some g)
                        else None)\<rparr>)"
  using assms
  by (auto simp: openDocument_complete_def openDocument_start_def openDocument_resume_def
      createController_def Map_get_set_same Let_def split: option.splits)

lemma openDocument_complete_others:
  assumes "u \<noteq> uri doc"
  shows "Map_get (documents (openDocument_complete h s doc)) u = Map_get (documents s) u"
  using assms openDocument_start_cases[of h s doc]
  by (auto simp: openDocument_complete_def openDocument_resume_def createController_def
      Map_get_set_other)

text \<open>
  C5, as stated, fails: while pretty symbols are disabled, opening a document whose
  language entry exists and has a substitution creates no controller.
\<close>

theorem open_while_disabled_counterexample:
  "getLanguageEntry
      (snd (disablePrettySymbols plain_host
         (activate (host_with [entry_for ''haskell'' [arrow_rule]] []))))
      (doc_of ''a.hs'' ''haskell'') \<noteq> None
   \<and> substitutions (the (getLanguageEntry
        (snd (disablePrettySymbols plain_host
           (activate (host_with [entry_for ''haskell'' [arrow_rule]] []))))
        (doc_of ''a.hs'' ''haskell''))) = [arrow_rule]
   \<and> documents (openDocument_complete plain_host
        (snd (disablePrettySymbols plain_host
           (activate (host_with [entry_for ''haskell'' [arrow_rule]] []))))
        (doc_of ''a.hs'' ''haskell'')) = []"
  by (simp add: handler_defs example_defs)

text \<open>
  C5, amended. While pretty symbols are enabled, a call of \<^verbatim>\<open>openDocument\<close> for a document
  that has no controller yet, run to its end, stores a controller for the document
  exactly when the document's language entry exists and has a substitution; the
  controller is built from the document and that entry. While pretty symbols are disabled
  the call changes nothing, and for a document that has a controller already it leaves
  \<^verbatim>\<open>documents\<close> as it is. No other document's controller changes. \<^verbatim>\<open>closeDocument\<close> disposes
  the document's controller, if there is one, and removes it from \<^verbatim>\<open>documents\<close>, changing
  no other document's controller; when the document has no controller it changes nothing.
\<close>

theorem session_created_on_open_disposed_on_close:
  "(prettySymbolsEnabled s \<and> Map_get (documents s) (uri doc) = None \<longrightarrow>
      (Map_get (documents (openDocument_complete h s doc)) (uri doc) \<noteq> None
         \<longleftrightarrow> (\<exists>l. getLanguageEntry s doc = Some l \<and> substitutions l \<noteq> []))
      \<and> (\<forall>c. Map_get (documents (openDocument_complete h s doc)) (uri doc) = Some c
            \<longrightarrow> c_doc c = doc \<and> getLanguageEntry s doc = Some (c_language c)))
   \<and> (\<not> prettySymbolsEnabled s \<longrightarrow> openDocument_complete h s doc = s)
   \<and> (Map_get (documents s) (uri doc) \<noteq> None
        \<longrightarrow> documents (openDocument_complete h s doc) = documents s)
   \<and> (\<forall>u. u \<noteq> uri doc
        \<longrightarrow> Map_get (documents (openDocument_complete h s doc)) u = Map_get (documents s) u)
   \<and> Map_get (documents (closeDocument t d)) (uri d) = None
   \<and> effects (closeDocument t d) =
       effects t @ (case Map_get (documents t) (uri d) of None \<Rightarrow> [] | Some c \<Rightarrow> [Disposed c])
   \<and> (\<forall>u. u \<noteq> uri d \<longrightarrow> Map_get (documents (closeDocument t d)) u = Map_get (documents t) u)
   \<and> (Map_get (documents t) (uri d) = None \<longrightarrow> closeDocument t d = t)"
proof -
  have 1: "prettySymbolsEnabled s \<and> Map_get (documents s) (uri doc) = None \<longrightarrow>
      (Map_get (documents (openDocument_complete h s doc)) (uri doc) \<noteq> None
         \<longleftrightarrow> (\<exists>l. getLanguageEntry s doc = Some l \<and> substitutions l \<noteq> []))
      \<and> (\<forall>c. Map_get (documents (openDocument_complete h s doc)) (uri doc) = Some c
            \<longrightarrow> c_doc c = doc \<and> getLanguageEntry s doc = Some (c_language c))"
  proof
    assume a: "prettySymbolsEnabled s \<and> Map_get (documents s) (uri doc) = None"
    then have e: "prettySymbolsEnabled s" and n: "Map_get (documents s) (uri doc) = None"
      by simp_all
    note lk = openDocument_complete_lookup[OF e n, of h]
    have "Map_get (documents (openDocument_complete h s doc)) (uri doc) \<noteq> None
            \<longleftrightarrow> (\<exists>l. getLanguageEntry s doc = Some l \<and> substitutions l \<noteq> [])"
      unfolding lk by (simp split: option.splits)
    moreover have "\<forall>c. Map_get (documents (openDocument_complete h s doc)) (uri doc) = Some c
            \<longrightarrow> c_doc c = doc \<and> getLanguageEntry s doc = Some (c_language c)"
      unfolding lk by (auto split: option.splits if_splits)
    ultimately show "(Map_get (documents (openDocument_complete h s doc)) (uri doc) \<noteq> None
         \<longleftrightarrow> (\<exists>l. getLanguageEntry s doc = Some l \<and> substitutions l \<noteq> []))
      \<and> (\<forall>c. Map_get (documents (openDocument_complete h s doc)) (uri doc) = Some c
            \<longrightarrow> c_doc c = doc \<and> getLanguageEntry s doc = Some (c_language c))"
      by (intro conjI)
  qed
  have 2: "\<not> prettySymbolsEnabled s \<longrightarrow> openDocument_complete h s doc = s"
    by (simp add: openDocument_complete_def openDocument_start_def)
  have 3: "Map_get (documents s) (uri doc) \<noteq> None
        \<longrightarrow> documents (openDocument_complete h s doc) = documents s"
    by (auto simp: openDocument_complete_def openDocument_start_def try_catch_def call_method_def
        split: result.splits)
  have 4: "\<forall>u. u \<noteq> uri doc
            \<longrightarrow> Map_get (documents (openDocument_complete h s doc)) u = Map_get (documents s) u"
    by (simp add: openDocument_complete_others)
  have 5: "Map_get (documents (closeDocument t d)) (uri d) = None"
    by (simp add: closeDocument_def Map_get_delete_same split: option.splits)
  have 6: "effects (closeDocument t d) =
           effects t @ (case Map_get (documents t) (uri d) of None \<Rightarrow> [] | Some c \<Rightarrow> [Disposed c])"
    by (simp add: closeDocument_def split: option.splits)
  have 7: "\<forall>u. u \<noteq> uri d \<longrightarrow> Map_get (documents (closeDocument t d)) u = Map_get (documents t) u"
    by (simp add: closeDocument_def Map_get_delete_other split: option.splits)
  have 8: "Map_get (documents t) (uri d) = None \<longrightarrow> closeDocument t d = t"
    by (simp add: closeDocument_def)
  from 1 2 3 4 5 6 7 8 show ?thesis by (intro conjI)
qed

theorem session_created_on_open_disposed_on_close_witness:
  "prettySymbolsEnabled (activate (host_with [entry_for ''haskell'' [arrow_rule]] []))
   \<and> Map_get (documents (activate (host_with [entry_for ''haskell'' [arrow_rule]] [])))
        (uri (doc_of ''a.hs'' ''haskell'')) = None
   \<and> getLanguageEntry (activate (host_with [entry_for ''haskell'' [arrow_rule]] []))
        (doc_of ''a.hs'' ''haskell'')
      = Some (setDefaults (readSettings plain_host) (entry_for ''haskell'' [arrow_rule]))
   \<and> substitutions (setDefaults (readSettings plain_host) (entry_for ''haskell'' [arrow_rule]))
      = [arrow_rule]
   \<and> Map_get (documents (openDocument_complete plain_host
        (activate (host_with [entry_for ''haskell'' [arrow_rule]] []))
        (doc_of ''a.hs'' ''haskell''))) (uri (doc_of ''a.hs'' ''haskell'')) \<noteq> None
   \<and> Map_get (documents (closeDocument (openDocument_complete plain_host
        (activate (host_with [entry_for ''haskell'' [arrow_rule]] []))
        (doc_of ''a.hs'' ''haskell'')) (doc_of ''a.hs'' ''haskell'')))
        (uri (doc_of ''a.hs'' ''haskell'')) = None"
proof -
  let ?s = "activate (host_with [entry_for ''haskell'' [arrow_rule]] [])"
  let ?d = "doc_of ''a.hs'' ''haskell''"
  let ?l = "setDefaults (readSettings plain_host) (entry_for ''haskell'' [arrow_rule])"
  have e: "prettySymbolsEnabled ?s"
    by (simp add: handler_defs example_defs)
  have n: "Map_get (documents ?s) (uri ?d) = None"
    by (simp add: handler_defs example_defs)
  have g: "getLanguageEntry ?s ?d = Some ?l"
    by (simp add: handler_defs example_defs)
  have r: "substitutions ?l = [arrow_rule]"
    by (simp add: handler_defs example_defs)
  note th = session_created_on_open_disposed_on_close
    [of ?s ?d plain_host "openDocument_complete plain_host ?s ?d" ?d]
  have "Map_get (documents (openDocument_complete plain_host ?s ?d)) (uri ?d) \<noteq> None
          \<longleftrightarrow> (\<exists>l. getLanguageEntry ?s ?d = Some l \<and> substitutions l \<noteq> [])"
    using th[THEN conjunct1] e n by (simp only: simp_thms)
  moreover have "\<exists>l. getLanguageEntry ?s ?d = Some l \<and> substitutions l \<noteq> []"
    using g r by (intro exI[of _ ?l]) (simp only: list.distinct simp_thms)
  ultimately have c: "Map_get (documents (openDocument_complete plain_host ?s ?d)) (uri ?d) \<noteq> None"
    by (simp only: simp_thms)
  have x: "Map_get (documents (closeDocument (openDocument_complete plain_host ?s ?d) ?d)) (uri ?d) = None"
    using th[THEN conjunct2, THEN conjunct2, THEN conjunct2, THEN conjunct2, THEN conjunct1] .
  from e n g r c x show ?thesis by (intro conjI)
qed

text \<open>
  C3. For a document that is opened while pretty symbols are enabled, has no controller
  yet and whose language entry has at least one substitution: when there is no registry,
  or the load of the grammar fails, the call of \<^verbatim>\<open>openDocument\<close> still stores a controller
  for the document, built from the document and the entry, with an \<^verbatim>\<open>undefined\<close> grammar.
  The same holds for a suspended call that resumes, in any later state, with a failed
  load.
\<close>

theorem grammar_failure_keeps_session:
  assumes "prettySymbolsEnabled s" and "Map_get (documents s) (uri doc) = None"
    and "getLanguageEntry s doc = Some l" and "substitutions l \<noteq> []"
    and "textMateRegistry s = None
         \<or> (\<exists>e. grammar_outcome h
                  (or_else (textMateInitialScope l) (getLanguageScopeName h (languageId doc))) = Inl e)"
  shows "Map_get (documents (openDocument_complete h s doc)) (uri doc) =
           Some \<lparr>c_doc = doc, c_language = l, c_hideTextMethod = s_hideTextMethod (settings s),
                  c_textMateGrammar = None\<rparr>
       \<and> Map_get (documents (openDocument_resume t p (Inl e'))) (uri (p_doc p)) =
           Some \<lparr>c_doc = p_doc p, c_language = p_language p,
                  c_hideTextMethod = s_hideTextMethod (settings t), c_textMateGrammar = None\<rparr>"
proof -
  have "Map_get (documents (openDocument_complete h s doc)) (uri doc) =
           Some \<lparr>c_doc = doc, c_language = l, c_hideTextMethod = s_hideTextMethod (settings s),
                  c_textMateGrammar = None\<rparr>"
    using assms(3,4,5) unfolding openDocument_complete_lookup[OF assms(1,2), of h] by auto
  moreover have "Map_get (documents (openDocument_resume t p (Inl e'))) (uri (p_doc p)) =
           Some \<lparr>c_doc = p_doc p, c_language = p_language p,
                  c_hideTextMethod = s_hideTextMethod (settings t), c_textMateGrammar = None\<rparr>"
    by (simp add: openDocument_resume_def createController_def Map_get_set_same)
  ultimately show ?thesis by simp
qed

theorem grammar_failure_keeps_session_witness:
  "prettySymbolsEnabled (activate (host_with [entry_for ''haskell'' [lambda_rule]] []))
   \<and> textMateRegistry (activate (host_with [entry_for ''haskell'' [lambda_rule]] [])) = Some Registry
   \<and> grammar_outcome plain_host (Some ''source.haskell'') = Inl (Error ''no grammar'')
   \<and> pending (openDocument plain_host
        (activate (host_with [entry_for ''haskell'' [lambda_rule]] []))
        (doc_of ''a.hs'' ''haskell'')) \<noteq> []
   \<and> map (\<lambda>(u, c). (u, c_textMateGrammar c, substitutions (c_language c)))
        (documents (openDocument_complete plain_host
           (activate (host_with [entry_for ''haskell'' [lambda_rule]] []))
           (doc_of ''a.hs'' ''haskell'')))
     = [(''a.hs'', None, [lambda_rule])]
   \<and> textMateRegistry (activate (no_registry_host [entry_for ''haskell'' [lambda_rule]])) = None
   \<and> map (\<lambda>(u, c). (u, c_textMateGrammar c, substitutions (c_language c)))
        (documents (openDocument_complete plain_host
           (activate (no_registry_host [entry_for ''haskell'' [lambda_rule]]))
           (doc_of ''a.hs'' ''haskell'')))
     = [(''a.hs'', None, [lambda_rule])]"
  using grammar_failure_keeps_session
    [of "activate (host_with [entry_for ''haskell'' [lambda_rule]] [])"
        "doc_of ''a.hs'' ''haskell''"
        "the (getLanguageEntry (activate (host_with [entry_for ''haskell'' [lambda_rule]] []))
                (doc_of ''a.hs'' ''haskell''))"
        plain_host]
    grammar_failure_keeps_session
    [of "activate (no_registry_host [entry_for ''haskell'' [lambda_rule]])"
        "doc_of ''a.hs'' ''haskell''"
        "the (getLanguageEntry (activate (no_registry_host [entry_for ''haskell'' [lambda_rule]]))
                (doc_of ''a.hs'' ''haskell''))"
        plain_host]
  by (simp add: handler_defs example_defs)


section \<open>Enabling, disabling and the observers\<close>

lemma openDocument_effects:
  "\<exists>cs. effects (openDocument h s doc) = effects s @ cs \<and> (\<forall>x \<in> set cs. \<exists>c. x = Called Refresh c)"
  using openDocument_start_cases[of h s doc]
  by (auto simp: openDocument_def createController_def)

lemma openDocuments_effects:
  "\<exists>cs. effects (openDocuments h s docs) = effects s @ cs \<and> (\<forall>x \<in> set cs. \<exists>c. x = Called Refresh c)"
proof (induction docs arbitrary: s)
  case Nil
  then show ?case by simp
next
  case (Cons d docs)
  obtain cs1 where 1: "effects (openDocument h s d) = effects s @ cs1"
      "\<forall>x \<in> set cs1. \<exists>c. x = Called Refresh c"
    using openDocument_effects by blast
  obtain cs2 where 2: "effects (openDocuments h (openDocument h s d) docs) = effects (openDocument h s d) @ cs2"
      "\<forall>x \<in> set cs2. \<exists>c. x = Called Refresh c"
    using Cons.IH by blast
  have "effects (openDocuments h s (d # docs)) = effects s @ (cs1 @ cs2)"
    using 1 2 by simp
  moreover have "\<forall>x \<in> set (cs1 @ cs2). \<exists>c. x = Called Refresh c"
    using 1 2 by auto
  ultimately show ?case by blast
qed

lemma reloadConfiguration_effects:
  "\<exists>cs. effects (reloadConfiguration h s) =
           effects s @ map Disposed (Map_values (documents s)) @ cs
       \<and> (\<forall>x \<in> set cs. \<exists>c. x = Called Refresh c)"
proof -
  let ?s3 = "unloadDocuments (s\<lparr>textMateRegistry := (if registry_throws h then None else Some Registry),
      settings := (readSettings h)\<lparr>s_substitutions :=
         setDefaults_loop (readSettings h) (s_substitutions (readSettings h))\<rparr>\<rparr>)"
  obtain cs where cs: "effects (openDocuments h ?s3 (textDocuments h)) = effects ?s3 @ cs"
      "\<forall>x \<in> set cs. \<exists>c. x = Called Refresh c"
    using openDocuments_effects by blast
  have "reloadConfiguration h s = openDocuments h ?s3 (textDocuments h)"
    by (simp add: reloadConfiguration_def Let_def)
  moreover have "effects ?s3 = effects s @ map Disposed (Map_values (documents s))"
    by (simp add: unloadDocuments_def)
  ultimately show ?thesis using cs by auto
qed

lemma reloadConfiguration_handlers:
  "onEnabledChangeHandlers (reloadConfiguration h s) = onEnabledChangeHandlers s"
  by (simp add: reloadConfiguration_def Let_def openDocuments_frame unloadDocuments_def)

text \<open>The loop over the observers: when all return, when one throws, and in general.\<close>

lemma forEach_handler_all_return:
  "\<forall>obs \<in> set hs. observer_throws h obs b = None \<Longrightarrow>
   forEach_handler h b hs s =
     (Return (), s\<lparr>effects := effects s @ map (\<lambda>obs. Notified obs b) hs\<rparr>)"
  by (induction hs arbitrary: s) simp_all

lemma forEach_handler_first_throw:
  "\<forall>x \<in> set pre. observer_throws h x b = None \<Longrightarrow> observer_throws h obs b = Some e \<Longrightarrow>
   forEach_handler h b (pre @ obs # post) s =
     (Throw e, s\<lparr>effects := effects s @ map (\<lambda>x. Notified x b) (pre @ [obs])\<rparr>)"
  by (induction pre arbitrary: s) simp_all

lemma forEach_handler_state:
  "\<exists>n. n \<le> length hs \<and> snd (forEach_handler h b hs s) =
      s\<lparr>effects := effects s @ map (\<lambda>x. Notified x b) (take n hs)\<rparr>"
proof (induction hs arbitrary: s)
  case Nil
  show ?case by simp
next
  case (Cons a hs)
  let ?s' = "s\<lparr>effects := effects s @ [Notified a b]\<rparr>"
  show ?case
  proof (cases "observer_throws h a b")
    case (Some e)
    then have "snd (forEach_handler h b (a # hs) s) =
        s\<lparr>effects := effects s @ map (\<lambda>x. Notified x b) (take 1 (a # hs))\<rparr>"
      by simp
    then show ?thesis by (intro exI[of _ 1]) simp
  next
    case None
    obtain n where n: "n \<le> length hs"
      "snd (forEach_handler h b hs ?s') =
         ?s'\<lparr>effects := effects ?s' @ map (\<lambda>x. Notified x b) (take n hs)\<rparr>"
      using Cons.IH by blast
    have "snd (forEach_handler h b (a # hs) s) =
        s\<lparr>effects := effects s @ map (\<lambda>x. Notified x b) (take (Suc n) (a # hs))\<rparr>"
      using None n(2) by simp
    with n(1) show ?thesis by (intro exI[of _ "Suc n"]) simp
  qed
qed

lemma notifyHandlers_state:
  "\<exists>called. set called \<subseteq> set (onEnabledChangeHandlers s)
     \<and> snd (notifyHandlers h b s) = s\<lparr>effects := effects s @ map (\<lambda>x. Notified x b) called\<rparr>"
proof -
  obtain n where "snd (forEach_handler h b (onEnabledChangeHandlers s) s) =
      s\<lparr>effects := effects s @ map (\<lambda>x. Notified x b) (take n (onEnabledChangeHandlers s))\<rparr>"
    using forEach_handler_state by blast
  then show ?thesis
    by (intro exI[of _ "take n (onEnabledChangeHandlers s)"])
       (auto simp: notifyHandlers_def dest: in_set_takeD)
qed

text \<open>The three functions that run the loop, by the way the loop ends.\<close>

lemma disablePrettySymbols_snd:
  "snd (disablePrettySymbols h s) =
     (case fst (notifyHandlers h False (s\<lparr>prettySymbolsEnabled := False\<rparr>)) of
        Throw e \<Rightarrow> snd (notifyHandlers h False (s\<lparr>prettySymbolsEnabled := False\<rparr>))
      | Return u \<Rightarrow> unloadDocuments (snd (notifyHandlers h False (s\<lparr>prettySymbolsEnabled := False\<rparr>))))"
  by (simp add: disablePrettySymbols_def split: prod.splits result.splits)

lemma enablePrettySymbols_snd:
  "snd (enablePrettySymbols h s) =
     (case fst (notifyHandlers h True (s\<lparr>prettySymbolsEnabled := True\<rparr>)) of
        Throw e \<Rightarrow> snd (notifyHandlers h True (s\<lparr>prettySymbolsEnabled := True\<rparr>))
      | Return u \<Rightarrow> reloadConfiguration h (snd (notifyHandlers h True (s\<lparr>prettySymbolsEnabled := True\<rparr>))))"
  by (simp add: enablePrettySymbols_def split: prod.splits result.splits)

lemma disablePrettySymbols_all_return:
  assumes "\<forall>obs \<in> set (onEnabledChangeHandlers s). observer_throws h obs False = None"
  shows "disablePrettySymbols h s =
     (Return (), unloadDocuments (s\<lparr>prettySymbolsEnabled := False,
        effects := effects s @ map (\<lambda>obs. Notified obs False) (onEnabledChangeHandlers s)\<rparr>))"
  using assms by (simp add: disablePrettySymbols_def notifyHandlers_def forEach_handler_all_return)

lemma deactivate_all_return:
  assumes "\<forall>obs \<in> set (onEnabledChangeHandlers s). observer_throws h obs False = None"
  shows "deactivate h s =
     (Return (), unloadDocuments (s\<lparr>effects :=
        effects s @ map (\<lambda>obs. Notified obs False) (onEnabledChangeHandlers s)\<rparr>))"
  using assms by (simp add: deactivate_def notifyHandlers_def forEach_handler_all_return)

lemma enablePrettySymbols_all_return:
  assumes "\<forall>obs \<in> set (onEnabledChangeHandlers s). observer_throws h obs True = None"
  shows "enablePrettySymbols h s =
     (Return (), reloadConfiguration h (s\<lparr>prettySymbolsEnabled := True,
        effects := effects s @ map (\<lambda>obs. Notified obs True) (onEnabledChangeHandlers s)\<rparr>))"
  using assms by (simp add: enablePrettySymbols_def notifyHandlers_def forEach_handler_all_return)

text \<open>
  An observer that throws ends \<^verbatim>\<open>disablePrettySymbols\<close>: the observers after it are not
  called, no controller is disposed, and the flag stays \<^verbatim>\<open>false\<close>.
\<close>

lemma disablePrettySymbols_first_throw:
  assumes "onEnabledChangeHandlers s = pre @ obs # post"
    and "\<forall>x \<in> set pre. observer_throws h x False = None"
    and "observer_throws h obs False = Some e"
  shows "disablePrettySymbols h s =
     (Throw e, s\<lparr>prettySymbolsEnabled := False,
        effects := effects s @ map (\<lambda>x. Notified x False) (pre @ [obs])\<rparr>)"
  using assms
  by (simp add: disablePrettySymbols_def notifyHandlers_def forEach_handler_first_throw)

lemma disablePrettySymbols_effects:
  "\<exists>new. effects (snd (disablePrettySymbols h s)) = effects s @ new
     \<and> (\<forall>obs b. Notified obs b \<in> set new \<longrightarrow> obs \<in> set (onEnabledChangeHandlers s))"
proof -
  let ?s1 = "s\<lparr>prettySymbolsEnabled := False\<rparr>"
  obtain called where sub: "set called \<subseteq> set (onEnabledChangeHandlers ?s1)"
    and c: "snd (notifyHandlers h False ?s1) =
        ?s1\<lparr>effects := effects ?s1 @ map (\<lambda>x. Notified x False) called\<rparr>"
    using notifyHandlers_state by blast
  show ?thesis
    unfolding disablePrettySymbols_snd c using sub
    by (auto simp: unloadDocuments_def split: result.splits)
qed

lemma enablePrettySymbols_effects:
  "\<exists>new. effects (snd (enablePrettySymbols h s)) = effects s @ new
     \<and> (\<forall>obs b. Notified obs b \<in> set new \<longrightarrow> obs \<in> set (onEnabledChangeHandlers s))"
proof -
  let ?s1 = "s\<lparr>prettySymbolsEnabled := True\<rparr>"
  obtain called where sub: "set called \<subseteq> set (onEnabledChangeHandlers ?s1)"
    and c: "snd (notifyHandlers h True ?s1) =
        ?s1\<lparr>effects := effects ?s1 @ map (\<lambda>x. Notified x True) called\<rparr>"
    using notifyHandlers_state by blast
  let ?s2 = "?s1\<lparr>effects := effects ?s1 @ map (\<lambda>x. Notified x True) called\<rparr>"
  obtain cs where cs: "effects (reloadConfiguration h ?s2) =
        effects ?s2 @ map Disposed (Map_values (documents ?s2)) @ cs"
      "\<forall>x \<in> set cs. \<exists>c. x = Called Refresh c"
    using reloadConfiguration_effects by blast
  show ?thesis
  proof (cases "fst (notifyHandlers h True ?s1)")
    case (Return u)
    then have "effects (snd (enablePrettySymbols h s)) =
        effects s @ (map (\<lambda>x. Notified x True) called @ map Disposed (Map_values (documents s)) @ cs)"
      unfolding enablePrettySymbols_snd c using cs(1) by simp
    moreover have "\<forall>obs b. Notified obs b \<in>
        set (map (\<lambda>x. Notified x True) called @ map Disposed (Map_values (documents s)) @ cs)
        \<longrightarrow> obs \<in> set (onEnabledChangeHandlers s)"
      using sub cs(2) by auto
    ultimately show ?thesis by (rule_tac x = "map (\<lambda>x. Notified x True) called
        @ map Disposed (Map_values (documents s)) @ cs" in exI) simp
  next
    case (Throw e)
    then have "effects (snd (enablePrettySymbols h s)) =
        effects s @ map (\<lambda>x. Notified x True) called"
      unfolding enablePrettySymbols_snd c by simp
    moreover have "\<forall>obs b. Notified obs b \<in> set (map (\<lambda>x. Notified x True) called)
        \<longrightarrow> obs \<in> set (onEnabledChangeHandlers s)"
      using sub by auto
    ultimately show ?thesis
      by (rule_tac x = "map (\<lambda>x. Notified x True) called" in exI) simp
  qed
qed

lemma disablePrettySymbols_frame:
  "onEnabledChangeHandlers (snd (disablePrettySymbols h s)) = onEnabledChangeHandlers s
   \<and> \<not> prettySymbolsEnabled (snd (disablePrettySymbols h s))"
proof -
  obtain called where c: "snd (notifyHandlers h False (s\<lparr>prettySymbolsEnabled := False\<rparr>)) =
        (s\<lparr>prettySymbolsEnabled := False\<rparr>)\<lparr>effects := effects (s\<lparr>prettySymbolsEnabled := False\<rparr>)
           @ map (\<lambda>x. Notified x False) called\<rparr>"
    using notifyHandlers_state by blast
  show ?thesis
    unfolding disablePrettySymbols_snd c
    by (simp add: unloadDocuments_def split: result.splits)
qed

lemma enablePrettySymbols_frame:
  "onEnabledChangeHandlers (snd (enablePrettySymbols h s)) = onEnabledChangeHandlers s
   \<and> prettySymbolsEnabled (snd (enablePrettySymbols h s))"
proof -
  obtain called where c: "snd (notifyHandlers h True (s\<lparr>prettySymbolsEnabled := True\<rparr>)) =
        (s\<lparr>prettySymbolsEnabled := True\<rparr>)\<lparr>effects := effects (s\<lparr>prettySymbolsEnabled := True\<rparr>)
           @ map (\<lambda>x. Notified x True) called\<rparr>"
    using notifyHandlers_state by blast
  show ?thesis
    unfolding enablePrettySymbols_snd c
    by (simp add: reloadConfiguration_def Let_def openDocuments_frame unloadDocuments_def
        split: result.splits)
qed

text \<open>What a step adds to the effects, and whom it notifies.\<close>

lemma step_effects:
  "\<exists>new. effects (step h s e) = effects s @ new
     \<and> (\<forall>obs b. Notified obs b \<in> set new \<longrightarrow> obs \<in> set (onEnabledChangeHandlers s))"
proof (cases e)
  case (DidOpenTextDocument doc)
  then show ?thesis using openDocument_effects[of h s doc] by auto
next
  case (DidCloseTextDocument doc)
  then show ?thesis by (auto simp: closeDocument_def split: option.splits)
next
  case DidChangeConfiguration
  then show ?thesis using reloadConfiguration_effects[of h s]
    by (auto simp: onConfigurationChanged_def)
next
  case (DidChangeTextEditorSelection ed)
  then show ?thesis
    by (auto simp: selectionChanged_def try_catch_def call_method_def split: option.splits)
next
  case (DidChangeActiveTextEditor ed)
  then show ?thesis
    by (auto simp: changeActiveTextEditor_def try_catch_def call_method_def split: option.splits)
next
  case (CopyWithSubstitutions ed)
  then show ?thesis
    by (auto simp: copyWithSubstitutions_def try_catch_def call_method_def split: option.splits)
next
  case DisablePrettySymbols
  then show ?thesis using disablePrettySymbols_effects[of h s] by simp
next
  case EnablePrettySymbols
  then show ?thesis using enablePrettySymbols_effects[of h s] by simp
next
  case TogglePrettySymbols
  then show ?thesis
    using disablePrettySymbols_effects[of h s] enablePrettySymbols_effects[of h s]
    by (simp add: togglePrettySymbols_def)
next
  case (OnDidEnabledChange x)
  then show ?thesis by (simp add: onDidEnabledChange_def)
next
  case (OnDidEnabledChangeDispose x)
  then show ?thesis by (simp add: onDidEnabledChange_dispose_def)
next
  case (RegisterSubstitutions entry)
  then show ?thesis
    using reloadConfiguration_effects
      [of h "s\<lparr>additionalSubstitutions := Set_add_object (additionalSubstitutions s) entry\<rparr>"]
    by (auto simp: registerSubstitutions_def)
next
  case (RegisterSubstitutionsDispose entry)
  then show ?thesis by (simp add: registerSubstitutions_dispose_def)
next
  case (GrammarSettled i r)
  then show ?thesis
    by (simp add: grammarSettled_def openDocument_resume_def createController_def)
qed

lemma step_handlers:
  assumes "e \<noteq> OnDidEnabledChange obs" and "obs \<notin> set (onEnabledChangeHandlers s)"
  shows "obs \<notin> set (onEnabledChangeHandlers (step h s e))"
  using assms
  by (cases e)
     (auto simp: openDocument_frame closeDocument_def onConfigurationChanged_def
       reloadConfiguration_handlers selectionChanged_def changeActiveTextEditor_def
       copyWithSubstitutions_def try_catch_def call_method_def disablePrettySymbols_frame
       enablePrettySymbols_frame togglePrettySymbols_def
       onDidEnabledChange_def onDidEnabledChange_dispose_def Set_add_def Set_delete_def
       registerSubstitutions_def registerSubstitutions_dispose_def grammarSettled_def
       openDocument_resume_def createController_def split: option.splits)

lemma run_never_notifies_absent_observer:
  assumes "\<forall>h e. (h, e) \<in> set es \<longrightarrow> e \<noteq> OnDidEnabledChange obs"
    and "obs \<notin> set (onEnabledChangeHandlers s)"
  shows "\<exists>new. effects (run s es) = effects s @ new \<and> (\<forall>b. Notified obs b \<notin> set new)"
  using assms
proof (induction es arbitrary: s)
  case Nil
  then show ?case by simp
next
  case (Cons he es)
  obtain h e where he: "he = (h, e)" by (cases he)
  from Cons.prems he have ne: "e \<noteq> OnDidEnabledChange obs" by auto
  obtain new1 where 1: "effects (step h s e) = effects s @ new1"
      "\<forall>o' b. Notified o' b \<in> set new1 \<longrightarrow> o' \<in> set (onEnabledChangeHandlers s)"
    using step_effects by blast
  have absent: "obs \<notin> set (onEnabledChangeHandlers (step h s e))"
    using step_handlers[OF ne Cons.prems(2)] .
  from Cons.prems have "\<forall>h e. (h, e) \<in> set es \<longrightarrow> e \<noteq> OnDidEnabledChange obs" by auto
  from Cons.IH[OF this absent]
  obtain new2 where 2: "effects (run (step h s e) es) = effects (step h s e) @ new2"
      "\<forall>b. Notified obs b \<notin> set new2" by blast
  have "effects (run s (he # es)) = effects s @ (new1 @ new2)"
    using he 1 2 by simp
  moreover have "\<forall>b. Notified obs b \<notin> set (new1 @ new2)"
    using 1(2) 2(2) Cons.prems(2) by auto
  ultimately show ?case by blast
qed

text \<open>
  C7, as stated, fails: with two observers registered and a document that has a
  controller, the first observer throws when it is called with \<^verbatim>\<open>false\<close>. The exception
  leaves \<^verbatim>\<open>disablePrettySymbols\<close>; the second observer is not called, the controller is
  not disposed and stays in \<^verbatim>\<open>documents\<close>.
\<close>

theorem throwing_observer_counterexample:
  "onEnabledChangeHandlers (onDidEnabledChange (onDidEnabledChange
      (activate (host_with [entry_for ''haskell'' [arrow_rule]] [doc_of ''a.hs'' ''haskell'']))
      1) 2) = [1, 2]
   \<and> observer_throws throwing_observer_host 1 False = Some (Error ''observer fault'')
   \<and> fst (disablePrettySymbols throwing_observer_host (onDidEnabledChange (onDidEnabledChange
      (activate (host_with [entry_for ''haskell'' [arrow_rule]] [doc_of ''a.hs'' ''haskell'']))
      1) 2)) = Throw (Error ''observer fault'')
   \<and> effects (snd (disablePrettySymbols throwing_observer_host (onDidEnabledChange
      (onDidEnabledChange
      (activate (host_with [entry_for ''haskell'' [arrow_rule]] [doc_of ''a.hs'' ''haskell'']))
      1) 2))) = [Notified 1 False]
   \<and> map fst (documents (snd (disablePrettySymbols throwing_observer_host (onDidEnabledChange
      (onDidEnabledChange
      (activate (host_with [entry_for ''haskell'' [arrow_rule]] [doc_of ''a.hs'' ''haskell'']))
      1) 2)))) = [''a.hs'']"
  by (simp add: handler_defs example_defs)

text \<open>
  C7, amended. When every registered observer returns normally from the call,
  \<^verbatim>\<open>disablePrettySymbols\<close> and \<^verbatim>\<open>deactivate\<close> return normally after they have called every
  registered observer with \<^verbatim>\<open>false\<close>, in the order of registration, then disposed every
  controller and left \<^verbatim>\<open>documents\<close> empty; \<^verbatim>\<open>enablePrettySymbols\<close> returns normally after it
  has called every registered observer with \<^verbatim>\<open>true\<close>, in the order of registration, and
  notified no one after that. \<^verbatim>\<open>onDidEnabledChange\<close> puts a new observer last. Disposing the
  registration removes the observer and keeps the others in their order; from then on,
  whatever events follow and whoever throws, the observer is not called again unless it
  is registered again.
\<close>

theorem enabled_change_notifies_observers:
  "((\<forall>obs \<in> set (onEnabledChangeHandlers s). observer_throws h obs False = None) \<longrightarrow>
       fst (disablePrettySymbols h s) = Return ()
     \<and> effects (snd (disablePrettySymbols h s)) =
         effects s @ map (\<lambda>obs. Notified obs False) (onEnabledChangeHandlers s)
                   @ map Disposed (Map_values (documents s))
     \<and> documents (snd (disablePrettySymbols h s)) = []
     \<and> fst (deactivate h s) = Return ()
     \<and> effects (snd (deactivate h s)) =
         effects s @ map (\<lambda>obs. Notified obs False) (onEnabledChangeHandlers s)
                   @ map Disposed (Map_values (documents s))
     \<and> documents (snd (deactivate h s)) = [])
   \<and> ((\<forall>obs \<in> set (onEnabledChangeHandlers s). observer_throws h obs True = None) \<longrightarrow>
       fst (enablePrettySymbols h s) = Return ()
     \<and> (\<exists>rest. effects (snd (enablePrettySymbols h s)) =
               effects s @ map (\<lambda>obs. Notified obs True) (onEnabledChangeHandlers s) @ rest
            \<and> (\<forall>x \<in> set rest. \<forall>obs b. x \<noteq> Notified obs b)))
   \<and> onEnabledChangeHandlers (onDidEnabledChange s obs) =
       (if obs \<in> set (onEnabledChangeHandlers s) then onEnabledChangeHandlers s
        else onEnabledChangeHandlers s @ [obs])
   \<and> onEnabledChangeHandlers (onDidEnabledChange_dispose s obs) =
       filter (\<lambda>x. x \<noteq> obs) (onEnabledChangeHandlers s)
   \<and> ((\<forall>h' e. (h', e) \<in> set es \<longrightarrow> e \<noteq> OnDidEnabledChange obs) \<longrightarrow>
        (\<forall>b. Notified obs b \<notin>
           set (drop (length (effects s)) (effects (run (onDidEnabledChange_dispose s obs) es)))))"
proof -
  have 1: "(\<forall>obs \<in> set (onEnabledChangeHandlers s). observer_throws h obs False = None) \<longrightarrow>
       fst (disablePrettySymbols h s) = Return ()
     \<and> effects (snd (disablePrettySymbols h s)) =
         effects s @ map (\<lambda>obs. Notified obs False) (onEnabledChangeHandlers s)
                   @ map Disposed (Map_values (documents s))
     \<and> documents (snd (disablePrettySymbols h s)) = []
     \<and> fst (deactivate h s) = Return ()
     \<and> effects (snd (deactivate h s)) =
         effects s @ map (\<lambda>obs. Notified obs False) (onEnabledChangeHandlers s)
                   @ map Disposed (Map_values (documents s))
     \<and> documents (snd (deactivate h s)) = []"
  proof
    assume a: "\<forall>obs \<in> set (onEnabledChangeHandlers s). observer_throws h obs False = None"
    show "fst (disablePrettySymbols h s) = Return ()
     \<and> effects (snd (disablePrettySymbols h s)) =
         effects s @ map (\<lambda>obs. Notified obs False) (onEnabledChangeHandlers s)
                   @ map Disposed (Map_values (documents s))
     \<and> documents (snd (disablePrettySymbols h s)) = []
     \<and> fst (deactivate h s) = Return ()
     \<and> effects (snd (deactivate h s)) =
         effects s @ map (\<lambda>obs. Notified obs False) (onEnabledChangeHandlers s)
                   @ map Disposed (Map_values (documents s))
     \<and> documents (snd (deactivate h s)) = []"
      unfolding disablePrettySymbols_all_return[OF a] deactivate_all_return[OF a]
      by (simp add: unloadDocuments_def)
  qed
  have 2: "(\<forall>obs \<in> set (onEnabledChangeHandlers s). observer_throws h obs True = None) \<longrightarrow>
       fst (enablePrettySymbols h s) = Return ()
     \<and> (\<exists>rest. effects (snd (enablePrettySymbols h s)) =
               effects s @ map (\<lambda>obs. Notified obs True) (onEnabledChangeHandlers s) @ rest
            \<and> (\<forall>x \<in> set rest. \<forall>obs b. x \<noteq> Notified obs b))"
  proof
    assume a: "\<forall>obs \<in> set (onEnabledChangeHandlers s). observer_throws h obs True = None"
    let ?s1 = "s\<lparr>prettySymbolsEnabled := True,
        effects := effects s @ map (\<lambda>obs. Notified obs True) (onEnabledChangeHandlers s)\<rparr>"
    obtain cs where cs: "effects (reloadConfiguration h ?s1) =
        effects ?s1 @ map Disposed (Map_values (documents ?s1)) @ cs"
      "\<forall>x \<in> set cs. \<exists>c. x = Called Refresh c"
      using reloadConfiguration_effects by blast
    let ?rest = "map Disposed (Map_values (documents s)) @ cs"
    have "effects (snd (enablePrettySymbols h s)) =
        effects s @ map (\<lambda>obs. Notified obs True) (onEnabledChangeHandlers s) @ ?rest"
      unfolding enablePrettySymbols_all_return[OF a] using cs(1) by simp
    moreover have "\<forall>x \<in> set ?rest. \<forall>obs b. x \<noteq> Notified obs b"
      using cs(2) by auto
    ultimately have "\<exists>rest. effects (snd (enablePrettySymbols h s)) =
               effects s @ map (\<lambda>obs. Notified obs True) (onEnabledChangeHandlers s) @ rest
            \<and> (\<forall>x \<in> set rest. \<forall>obs b. x \<noteq> Notified obs b)"
      by (rule_tac x = ?rest in exI) simp
    moreover have "fst (enablePrettySymbols h s) = Return ()"
      unfolding enablePrettySymbols_all_return[OF a] by simp
    ultimately show "fst (enablePrettySymbols h s) = Return ()
     \<and> (\<exists>rest. effects (snd (enablePrettySymbols h s)) =
               effects s @ map (\<lambda>obs. Notified obs True) (onEnabledChangeHandlers s) @ rest
            \<and> (\<forall>x \<in> set rest. \<forall>obs b. x \<noteq> Notified obs b))"
      by (intro conjI)
  qed
  have 3: "onEnabledChangeHandlers (onDidEnabledChange s obs) =
       (if obs \<in> set (onEnabledChangeHandlers s) then onEnabledChangeHandlers s
        else onEnabledChangeHandlers s @ [obs])"
    by (simp add: onDidEnabledChange_def Set_add_def)
  have 4: "onEnabledChangeHandlers (onDidEnabledChange_dispose s obs) =
       filter (\<lambda>x. x \<noteq> obs) (onEnabledChangeHandlers s)"
    by (simp add: onDidEnabledChange_dispose_def Set_delete_def)
  have 5: "(\<forall>h' e. (h', e) \<in> set es \<longrightarrow> e \<noteq> OnDidEnabledChange obs) \<longrightarrow>
        (\<forall>b. Notified obs b \<notin>
           set (drop (length (effects s)) (effects (run (onDidEnabledChange_dispose s obs) es))))"
  proof
    assume a: "\<forall>h' e. (h', e) \<in> set es \<longrightarrow> e \<noteq> OnDidEnabledChange obs"
    have "obs \<notin> set (onEnabledChangeHandlers (onDidEnabledChange_dispose s obs))"
      using 4 by simp
    from run_never_notifies_absent_observer[OF a this]
    obtain new where "effects (run (onDidEnabledChange_dispose s obs) es) =
        effects (onDidEnabledChange_dispose s obs) @ new" "\<forall>b. Notified obs b \<notin> set new"
      by blast
    moreover have "effects (onDidEnabledChange_dispose s obs) = effects s"
      by (simp add: onDidEnabledChange_dispose_def)
    ultimately show "\<forall>b. Notified obs b \<notin>
           set (drop (length (effects s)) (effects (run (onDidEnabledChange_dispose s obs) es)))"
      by simp
  qed
  from 1 2 3 4 5 show ?thesis by (intro conjI)
qed

theorem enabled_change_notifies_observers_witness:
  "onEnabledChangeHandlers (onDidEnabledChange (onDidEnabledChange
      (activate (host_with [entry_for ''haskell'' [arrow_rule]] [doc_of ''a.hs'' ''haskell'']))
      1) 2) = [1, 2]
   \<and> observer_throws plain_host 1 False = None
   \<and> observer_throws plain_host 2 False = None
   \<and> observer_throws plain_host 2 True = None
   \<and> disablePrettySymbols plain_host (onDidEnabledChange (onDidEnabledChange
      (activate (host_with [entry_for ''haskell'' [arrow_rule]] [doc_of ''a.hs'' ''haskell'']))
      1) 2)
     = (Return (), (onDidEnabledChange (onDidEnabledChange
      (activate (host_with [entry_for ''haskell'' [arrow_rule]] [doc_of ''a.hs'' ''haskell'']))
      1) 2)\<lparr>prettySymbolsEnabled := False, documents := [],
        effects := [Notified 1 False, Notified 2 False,
          Disposed \<lparr>c_doc = doc_of ''a.hs'' ''haskell'',
                    c_language = setDefaults (readSettings plain_host) (entry_for ''haskell'' [arrow_rule]),
                    c_hideTextMethod = ''hack-letterSpacing'', c_textMateGrammar = None\<rparr>]\<rparr>)
   \<and> effects (run (onDidEnabledChange_dispose (onDidEnabledChange (onDidEnabledChange
      (activate (host_with [entry_for ''haskell'' [arrow_rule]] [doc_of ''a.hs'' ''haskell'']))
      1) 2) 1) [(plain_host, DisablePrettySymbols), (plain_host, EnablePrettySymbols)])
   = [Notified 2 False,
      Disposed \<lparr>c_doc = doc_of ''a.hs'' ''haskell'',
                c_language = setDefaults (readSettings plain_host) (entry_for ''haskell'' [arrow_rule]),
                c_hideTextMethod = ''hack-letterSpacing'', c_textMateGrammar = None\<rparr>,
      Notified 2 True]"
  using enabled_change_notifies_observers
    [of "onDidEnabledChange (onDidEnabledChange
      (activate (host_with [entry_for ''haskell'' [arrow_rule]] [doc_of ''a.hs'' ''haskell'']))
      1) 2" plain_host 1 "[(plain_host, DisablePrettySymbols), (plain_host, EnablePrettySymbols)]"]
  by (simp add: handler_defs example_defs)


section \<open>Substitutions registered at run time\<close>

lemma openDocument_start_additionalSubstitutions:
  "openDocument_start h (s\<lparr>additionalSubstitutions := a\<rparr>) doc =
     (case openDocument_start h s doc of
        Finished s' \<Rightarrow> Finished (s'\<lparr>additionalSubstitutions := a\<rparr>)
      | Awaiting s' p \<Rightarrow> Awaiting (s'\<lparr>additionalSubstitutions := a\<rparr>) p)"
  by (simp add: openDocument_start_def getLanguageEntry_def createController_def try_catch_def
      call_method_def Let_def split: option.splits)

lemma openDocument_additionalSubstitutions:
  "openDocument h (s\<lparr>additionalSubstitutions := a\<rparr>) doc =
     (openDocument h s doc)\<lparr>additionalSubstitutions := a\<rparr>"
  by (simp add: openDocument_def openDocument_start_additionalSubstitutions split: open_step.splits)

lemma openDocuments_additionalSubstitutions:
  "openDocuments h (s\<lparr>additionalSubstitutions := a\<rparr>) docs =
     (openDocuments h s docs)\<lparr>additionalSubstitutions := a\<rparr>"
  by (induction docs arbitrary: s) (simp_all add: openDocument_additionalSubstitutions)

lemma reloadConfiguration_ignores_additionalSubstitutions:
  "reloadConfiguration h (s\<lparr>additionalSubstitutions := a\<rparr>) =
     (reloadConfiguration h s)\<lparr>additionalSubstitutions := a\<rparr>"
proof -
  have "unloadDocuments (s\<lparr>additionalSubstitutions := a,
            textMateRegistry := (if registry_throws h then None else Some Registry),
            settings := x\<rparr>)
      = (unloadDocuments (s\<lparr>textMateRegistry := (if registry_throws h then None else Some Registry),
            settings := x\<rparr>))\<lparr>additionalSubstitutions := a\<rparr>" for x
    by (simp add: unloadDocuments_def)
  then show ?thesis
    by (simp add: reloadConfiguration_def Let_def openDocuments_additionalSubstitutions)
qed

text \<open>
  C1 on the code. With no configured substitutions and a Haskell document open, an
  extension registers an entry for \<^verbatim>\<open>haskell\<close>. The entry is in
  \<^verbatim>\<open>additionalSubstitutions\<close> and \<^verbatim>\<open>reloadConfiguration\<close> has run, yet the document's
  language entry is \<^verbatim>\<open>undefined\<close>, the document has no controller and no call of
  \<^verbatim>\<open>openDocument\<close> is suspended; a further reload changes nothing. The lemma before shows
  why: \<^verbatim>\<open>reloadConfiguration\<close> never reads \<^verbatim>\<open>additionalSubstitutions\<close>.
\<close>

theorem registered_substitutions_are_not_used:
  "additionalSubstitutions (registerSubstitutions
      (host_with [] [doc_of ''a.hs'' ''haskell''])
      (activate (host_with [] [doc_of ''a.hs'' ''haskell'']))
      (0, entry_for ''haskell'' [arrow_rule])) = [(0, entry_for ''haskell'' [arrow_rule])]
   \<and> getLanguageEntry (registerSubstitutions
      (host_with [] [doc_of ''a.hs'' ''haskell''])
      (activate (host_with [] [doc_of ''a.hs'' ''haskell'']))
      (0, entry_for ''haskell'' [arrow_rule])) (doc_of ''a.hs'' ''haskell'') = None
   \<and> documents (registerSubstitutions
      (host_with [] [doc_of ''a.hs'' ''haskell''])
      (activate (host_with [] [doc_of ''a.hs'' ''haskell'']))
      (0, entry_for ''haskell'' [arrow_rule])) = []
   \<and> pending (registerSubstitutions
      (host_with [] [doc_of ''a.hs'' ''haskell''])
      (activate (host_with [] [doc_of ''a.hs'' ''haskell'']))
      (0, entry_for ''haskell'' [arrow_rule])) = []
   \<and> documents (reloadConfiguration (host_with [] [doc_of ''a.hs'' ''haskell''])
      (registerSubstitutions
        (host_with [] [doc_of ''a.hs'' ''haskell''])
        (activate (host_with [] [doc_of ''a.hs'' ''haskell'']))
        (0, entry_for ''haskell'' [arrow_rule]))) = []"
  by (simp add: handler_defs example_defs)


section \<open>The enabled flag and the stored controllers\<close>

lemma openDocuments_disabled:
  "\<not> prettySymbolsEnabled s \<Longrightarrow> openDocuments h s docs = s"
  by (induction docs) (simp_all add: openDocument_def openDocument_start_def)

lemma reloadConfiguration_disabled:
  "\<not> prettySymbolsEnabled s \<Longrightarrow> documents (reloadConfiguration h s) = []"
  by (simp add: reloadConfiguration_def Let_def unloadDocuments_def openDocuments_disabled)

lemma reloadConfiguration_enabled:
  "prettySymbolsEnabled (reloadConfiguration h s) = prettySymbolsEnabled s"
  by (simp add: reloadConfiguration_def Let_def openDocuments_frame unloadDocuments_def)

text \<open>
  While no suspended call of \<^verbatim>\<open>openDocument\<close> resumes and no observer throws when it is
  called with \<^verbatim>\<open>false\<close>, every handler keeps the invariant.
\<close>

lemma disabled_invariant_step:
  assumes "\<not> prettySymbolsEnabled s \<longrightarrow> documents s = []"
    and "\<forall>i r. e \<noteq> GrammarSettled i r"
    and "\<forall>obs. observer_throws h obs False = None"
  shows "\<not> prettySymbolsEnabled (step h s e) \<longrightarrow> documents (step h s e) = []"
proof (cases e)
  case (DidOpenTextDocument doc)
  then show ?thesis using assms(1) openDocument_frame[of h s doc]
    by (auto simp: openDocument_def openDocument_start_def)
next
  case (DidCloseTextDocument doc)
  then show ?thesis using assms(1)
    by (auto simp: closeDocument_def split: option.splits)
next
  case DidChangeConfiguration
  then show ?thesis
    by (simp add: onConfigurationChanged_def reloadConfiguration_enabled reloadConfiguration_disabled)
next
  case (DidChangeTextEditorSelection ed)
  then show ?thesis using assms(1)
    by (auto simp: selectionChanged_def try_catch_def call_method_def split: option.splits)
next
  case (DidChangeActiveTextEditor ed)
  then show ?thesis using assms(1)
    by (auto simp: changeActiveTextEditor_def try_catch_def call_method_def split: option.splits)
next
  case (CopyWithSubstitutions ed)
  then show ?thesis using assms(1)
    by (auto simp: copyWithSubstitutions_def try_catch_def call_method_def split: option.splits)
next
  case DisablePrettySymbols
  have "\<forall>obs \<in> set (onEnabledChangeHandlers s). observer_throws h obs False = None"
    using assms(3) by simp
  from disablePrettySymbols_all_return[OF this] DisablePrettySymbols
  show ?thesis by (simp add: unloadDocuments_def)
next
  case EnablePrettySymbols
  then show ?thesis by (simp add: enablePrettySymbols_frame)
next
  case TogglePrettySymbols
  have "\<forall>obs \<in> set (onEnabledChangeHandlers s). observer_throws h obs False = None"
    using assms(3) by simp
  from disablePrettySymbols_all_return[OF this] TogglePrettySymbols
  show ?thesis
    by (simp add: togglePrettySymbols_def enablePrettySymbols_frame unloadDocuments_def)
next
  case (OnDidEnabledChange x)
  then show ?thesis using assms(1) by (simp add: onDidEnabledChange_def)
next
  case (OnDidEnabledChangeDispose x)
  then show ?thesis using assms(1) by (simp add: onDidEnabledChange_dispose_def)
next
  case (RegisterSubstitutions entry)
  then show ?thesis
    by (simp add: registerSubstitutions_def reloadConfiguration_enabled reloadConfiguration_disabled)
next
  case (RegisterSubstitutionsDispose entry)
  then show ?thesis using assms(1) by (simp add: registerSubstitutions_dispose_def)
next
  case (GrammarSettled i r)
  then show ?thesis using assms(2) by simp
qed

lemma disabled_invariant_run:
  assumes "\<not> prettySymbolsEnabled s \<longrightarrow> documents s = []"
    and "\<forall>h i r. (h, GrammarSettled i r) \<notin> set es"
    and "\<forall>h e obs. (h, e) \<in> set es \<longrightarrow> observer_throws h obs False = None"
  shows "\<not> prettySymbolsEnabled (run s es) \<longrightarrow> documents (run s es) = []"
  using assms
proof (induction es arbitrary: s)
  case Nil
  then show ?case by simp
next
  case (Cons he es)
  obtain h e where he: "he = (h, e)" by (cases he)
  have "\<forall>i r. e \<noteq> GrammarSettled i r"
    using Cons.prems(2) he by auto
  moreover have "\<forall>obs. observer_throws h obs False = None"
    using Cons.prems(3) he by auto
  ultimately have "\<not> prettySymbolsEnabled (step h s e) \<longrightarrow> documents (step h s e) = []"
    using disabled_invariant_step[OF Cons.prems(1)] by blast
  moreover have "\<forall>h i r. (h, GrammarSettled i r) \<notin> set es"
    using Cons.prems(2) by auto
  moreover have "\<forall>h e obs. (h, e) \<in> set es \<longrightarrow> observer_throws h obs False = None"
    using Cons.prems(3) by auto
  ultimately show ?case using Cons.IH he by simp
qed

text \<open>
  C9 on the code. A Haskell document whose entry has a rule with a scope is opened while
  pretty symbols are enabled and a registry exists: the call of \<^verbatim>\<open>openDocument\<close> is
  suspended at line 293. \<^verbatim>\<open>disablePrettySymbols\<close> then runs and leaves \<^verbatim>\<open>documents\<close> empty.
  When the grammar load settles, the suspended call goes on to line 299 and stores a
  controller: the flag is \<^verbatim>\<open>false\<close> and \<^verbatim>\<open>documents\<close> is not empty. No observer is
  registered here; the two lemmas before show that, observers apart, no other handler
  breaks the invariant.
\<close>

theorem session_stored_while_disabled:
  "prettySymbolsEnabled (activate (host_with [entry_for ''haskell'' [lambda_rule]] []))
   \<and> documents (activate (host_with [entry_for ''haskell'' [lambda_rule]] [])) = []
   \<and> \<not> prettySymbolsEnabled (run (activate (host_with [entry_for ''haskell'' [lambda_rule]] []))
        [(plain_host, DidOpenTextDocument (doc_of ''a.hs'' ''haskell'')),
         (plain_host, DisablePrettySymbols),
         (plain_host, GrammarSettled 0 (Inr (Grammar ''source.haskell'')))])
   \<and> map fst (documents (run (activate (host_with [entry_for ''haskell'' [lambda_rule]] []))
        [(plain_host, DidOpenTextDocument (doc_of ''a.hs'' ''haskell'')),
         (plain_host, DisablePrettySymbols),
         (plain_host, GrammarSettled 0 (Inr (Grammar ''source.haskell'')))])) = [''a.hs'']
   \<and> documents (run (activate (host_with [entry_for ''haskell'' [lambda_rule]] []))
        [(plain_host, DidOpenTextDocument (doc_of ''a.hs'' ''haskell'')),
         (plain_host, DisablePrettySymbols)]) = []"
  by (simp add: handler_defs example_defs)


section \<open>The coordinate map: round trips\<close>

lemma buildMap_from_chained:
  "matches_ok_from r' ms \<Longrightarrow> r \<le> r' \<Longrightarrow> chained r p (buildMap_from r p ms)"
proof (induction ms arbitrary: r r' p)
  case Nil
  then show ?case by simp
next
  case (Cons m ms)
  show ?case
  proof (cases "revealed m")
    case True
    have "matches_ok_from (m_end m) ms" using Cons.prems by simp
    moreover have "r \<le> m_end m" using Cons.prems by simp
    ultimately have "chained r p (buildMap_from r p ms)" by (rule Cons.IH)
    with True show ?thesis by simp
  next
    case False
    have "matches_ok_from (m_end m) ms" using Cons.prems by simp
    then have "chained (m_end m) (p + (m_start m - r) + glyph_units m)
                 (buildMap_from (m_end m) (p + (m_start m - r) + glyph_units m) ms)"
      by (rule Cons.IH) simp
    with False Cons.prems show ?thesis by simp
  qed
qed

lemma no_raw_before:
  "chained r p bs \<Longrightarrow> x < r \<Longrightarrow> last_at_or_before raw_offset bs x = None"
  by (induction bs arbitrary: r p) auto

lemma no_pretty_before:
  "chained r p bs \<Longrightarrow> y < p \<Longrightarrow> last_at_or_before pretty_offset bs y = None"
  by (induction bs arbitrary: r p) auto

lemma toPretty_from_shift:
  "raw_offset b + raw_length b \<le> x \<Longrightarrow>
   toPretty_from r p (b # bs) x =
     toPretty_from (raw_offset b + raw_length b) (pretty_offset b + pretty_length b) bs x"
  by (simp add: toPretty_from_def pretty_at_def split: option.splits)

lemma toRaw_from_shift:
  "pretty_offset b + pretty_length b \<le> y \<Longrightarrow>
   toRaw_from r p (b # bs) y =
     toRaw_from (raw_offset b + raw_length b) (pretty_offset b + pretty_length b) bs y"
  by (simp add: toRaw_from_def raw_at_def split: option.splits)

lemma raw_round_trip_from:
  "chained r p bs \<Longrightarrow> r \<le> x \<Longrightarrow> on_raw_boundary bs x \<Longrightarrow>
   p \<le> toPretty_from r p bs x \<and> toRaw_from r p bs (toPretty_from r p bs x) = x"
proof (induction bs arbitrary: r p)
  case Nil
  then show ?case by (simp add: toPretty_from_def toRaw_from_def)
next
  case (Cons b bs)
  let ?re = "raw_offset b + raw_length b" and ?pe = "pretty_offset b + pretty_length b"
  have ch: "chained ?re ?pe bs" and rb: "r \<le> raw_offset b"
    and po: "pretty_offset b = p + (raw_offset b - r)"
    and pos: "0 < raw_length b" "0 < pretty_length b"
    using Cons.prems(1) by auto
  have bnd: "x \<le> raw_offset b \<or> ?re \<le> x" and bnd': "on_raw_boundary bs x"
    using Cons.prems(3) by (auto simp: on_raw_boundary_def)
  consider (before) "x < raw_offset b" | (at) "x = raw_offset b" | (after) "?re \<le> x"
    using bnd by linarith
  then show ?case
  proof cases
    case before
    then have "x < ?re" by simp
    then have n: "last_at_or_before raw_offset bs x = None" using no_raw_before[OF ch] by simp
    have y: "toPretty_from r p (b # bs) x = p + (x - r)"
      using n before by (simp add: toPretty_from_def)
    have "p + (x - r) < pretty_offset b" using before po Cons.prems(2) by simp
    moreover from this have "p + (x - r) < ?pe" by simp
    then have "last_at_or_before pretty_offset bs (p + (x - r)) = None"
      using no_pretty_before[OF ch] by simp
    ultimately have "toRaw_from r p (b # bs) (p + (x - r)) = r + (p + (x - r) - p)"
      by (simp add: toRaw_from_def)
    with y Cons.prems(2) show ?thesis by simp
  next
    case at
    then have "x < ?re" using pos by simp
    then have n: "last_at_or_before raw_offset bs x = None" using no_raw_before[OF ch] by simp
    have y: "toPretty_from r p (b # bs) x = pretty_offset b"
      using n at pos by (simp add: toPretty_from_def pretty_at_def)
    have "pretty_offset b < ?pe" using pos by simp
    then have "last_at_or_before pretty_offset bs (pretty_offset b) = None"
      using no_pretty_before[OF ch] by simp
    then have "toRaw_from r p (b # bs) (pretty_offset b) = raw_offset b"
      using pos by (simp add: toRaw_from_def raw_at_def)
    with y at po show ?thesis by simp
  next
    case after
    have ih: "?pe \<le> toPretty_from ?re ?pe bs x
        \<and> toRaw_from ?re ?pe bs (toPretty_from ?re ?pe bs x) = x"
      using Cons.IH[OF ch after bnd'] .
    have y: "toPretty_from r p (b # bs) x = toPretty_from ?re ?pe bs x"
      using after by (rule toPretty_from_shift)
    have "toRaw_from r p (b # bs) (toPretty_from ?re ?pe bs x)
        = toRaw_from ?re ?pe bs (toPretty_from ?re ?pe bs x)"
      using ih by (intro toRaw_from_shift) simp
    with y ih po show ?thesis by simp
  qed
qed

lemma pretty_round_trip_from:
  "chained r p bs \<Longrightarrow> p \<le> y \<Longrightarrow> on_pretty_boundary bs y \<Longrightarrow>
   r \<le> toRaw_from r p bs y \<and> toPretty_from r p bs (toRaw_from r p bs y) = y"
proof (induction bs arbitrary: r p)
  case Nil
  then show ?case by (simp add: toPretty_from_def toRaw_from_def)
next
  case (Cons b bs)
  let ?re = "raw_offset b + raw_length b" and ?pe = "pretty_offset b + pretty_length b"
  have ch: "chained ?re ?pe bs" and rb: "r \<le> raw_offset b"
    and po: "pretty_offset b = p + (raw_offset b - r)"
    and pos: "0 < raw_length b" "0 < pretty_length b"
    using Cons.prems(1) by auto
  have bnd: "y \<le> pretty_offset b \<or> ?pe \<le> y" and bnd': "on_pretty_boundary bs y"
    using Cons.prems(3) by (auto simp: on_pretty_boundary_def)
  consider (before) "y < pretty_offset b" | (at) "y = pretty_offset b" | (after) "?pe \<le> y"
    using bnd by linarith
  then show ?case
  proof cases
    case before
    then have "y < ?pe" by simp
    then have n: "last_at_or_before pretty_offset bs y = None" using no_pretty_before[OF ch] by simp
    have x: "toRaw_from r p (b # bs) y = r + (y - p)"
      using n before by (simp add: toRaw_from_def)
    have "r + (y - p) < raw_offset b" using before po rb Cons.prems(2) by simp
    moreover from this have "r + (y - p) < ?re" by simp
    then have "last_at_or_before raw_offset bs (r + (y - p)) = None"
      using no_raw_before[OF ch] by simp
    ultimately have "toPretty_from r p (b # bs) (r + (y - p)) = p + (r + (y - p) - r)"
      by (simp add: toPretty_from_def)
    with x Cons.prems(2) show ?thesis by simp
  next
    case at
    then have "y < ?pe" using pos by simp
    then have n: "last_at_or_before pretty_offset bs y = None" using no_pretty_before[OF ch] by simp
    have x: "toRaw_from r p (b # bs) y = raw_offset b"
      using n at pos by (simp add: toRaw_from_def raw_at_def)
    have "raw_offset b < ?re" using pos by simp
    then have "last_at_or_before raw_offset bs (raw_offset b) = None"
      using no_raw_before[OF ch] by simp
    then have "toPretty_from r p (b # bs) (raw_offset b) = pretty_offset b"
      using pos by (simp add: toPretty_from_def pretty_at_def)
    with x at rb show ?thesis by simp
  next
    case after
    have ih: "?re \<le> toRaw_from ?re ?pe bs y
        \<and> toPretty_from ?re ?pe bs (toRaw_from ?re ?pe bs y) = y"
      using Cons.IH[OF ch after bnd'] .
    have x: "toRaw_from r p (b # bs) y = toRaw_from ?re ?pe bs y"
      using after by (rule toRaw_from_shift)
    have "toPretty_from r p (b # bs) (toRaw_from ?re ?pe bs y)
        = toPretty_from ?re ?pe bs (toRaw_from ?re ?pe bs y)"
      using ih by (intro toPretty_from_shift) simp
    with x ih rb show ?thesis by simp
  qed
qed

lemma toPretty_from_zero: "toPretty_from 0 0 cm x = toPretty cm x"
  by (simp add: toPretty_from_def toPretty_def split: option.splits)

lemma toRaw_from_zero: "toRaw_from 0 0 cm y = toRaw cm y"
  by (simp add: toRaw_from_def toRaw_def split: option.splits)

lemma chained_lower:
  "chained r p bs \<Longrightarrow> b \<in> set bs \<Longrightarrow> r \<le> raw_offset b \<and> p \<le> pretty_offset b"
proof (induction bs arbitrary: r p)
  case Nil
  then show ?case by simp
next
  case (Cons a bs)
  show ?case
  proof (cases "b = a")
    case True
    from Cons.prems(1) have ra: "r \<le> raw_offset a" and "pretty_offset a = p + (raw_offset a - r)"
      by simp_all
    then have "p \<le> pretty_offset a" by linarith
    with True ra show ?thesis by simp
  next
    case False
    with Cons.prems(2) have "b \<in> set bs" by simp
    moreover have "chained (raw_offset a + raw_length a) (pretty_offset a + pretty_length a) bs"
      using Cons.prems(1) unfolding chained.simps by blast
    ultimately have "raw_offset a + raw_length a \<le> raw_offset b
        \<and> pretty_offset a + pretty_length a \<le> pretty_offset b"
      by (rule Cons.IH[rotated])
    moreover from Cons.prems(1) have "r \<le> raw_offset a"
      and "pretty_offset a = p + (raw_offset a - r)"
      by simp_all
    ultimately show ?thesis by linarith
  qed
qed

lemma boundary_before:
  assumes "chained r p bs"
  shows "(x \<le> r \<longrightarrow> on_raw_boundary bs x) \<and> (y \<le> p \<longrightarrow> on_pretty_boundary bs y)"
proof -
  have "\<forall>b \<in> set bs. r \<le> raw_offset b \<and> p \<le> pretty_offset b"
    using chained_lower[OF assms] by blast
  then show ?thesis
    by (auto simp: on_raw_boundary_def on_pretty_boundary_def list_all_iff)
qed

lemma breakpoints_on_boundaries:
  "chained r p bs \<Longrightarrow> b \<in> set bs \<Longrightarrow>
   on_raw_boundary bs (raw_offset b) \<and> on_pretty_boundary bs (pretty_offset b)"
proof (induction bs arbitrary: r p)
  case Nil
  then show ?case by simp
next
  case (Cons a bs)
  let ?re = "raw_offset a + raw_length a" and ?pe = "pretty_offset a + pretty_length a"
  have ch: "chained ?re ?pe bs" using Cons.prems(1) unfolding chained.simps by blast
  show ?case
  proof (cases "b = a")
    case True
    have "on_raw_boundary bs (raw_offset a) \<and> on_pretty_boundary bs (pretty_offset a)"
      using boundary_before[OF ch, of "raw_offset a" "pretty_offset a"] by simp
    with True show ?thesis by (simp add: on_raw_boundary_def on_pretty_boundary_def)
  next
    case False
    with Cons.prems(2) have mem: "b \<in> set bs" by simp
    have "on_raw_boundary bs (raw_offset b) \<and> on_pretty_boundary bs (pretty_offset b)"
      using Cons.IH[OF ch mem] .
    moreover have "?re \<le> raw_offset b \<and> ?pe \<le> pretty_offset b"
      using chained_lower[OF ch mem] .
    ultimately show ?thesis by (simp add: on_raw_boundary_def on_pretty_boundary_def)
  qed
qed

lemma unit_glyphs_all_on_boundary:
  "list_all (\<lambda>b. pretty_length b = 1) cm \<Longrightarrow> on_pretty_boundary cm p"
  by (induction cm) (auto simp: on_pretty_boundary_def)

text \<open>Revealed matches give no breakpoint: the map is built from the others alone.\<close>

lemma buildMap_from_only_active:
  "buildMap_from r p ms = buildMap_from r p (filter (\<lambda>m. \<not> revealed m) ms)"
  by (induction ms arbitrary: r p) simp_all

lemma buildMap_only_active:
  "buildMap ms = buildMap (filter (\<lambda>m. \<not> revealed m) ms)"
  unfolding buildMap_def by (rule buildMap_from_only_active)

text \<open>
  C8. For every list of matches that satisfies the invariant of the Match Finder,
  whatever the reveal states, and the coordinate map built from it: a raw offset on a
  boundary is returned by \<^verbatim>\<open>toRaw\<close> after \<^verbatim>\<open>toPretty\<close>, a pretty offset on a boundary is
  returned by \<^verbatim>\<open>toPretty\<close> after \<^verbatim>\<open>toRaw\<close>, and both offsets of every breakpoint are such
  offsets. The map is a function of the matches, so building it again from the same
  matches gives the same two translations.
\<close>

theorem coordinate_round_trip:
  assumes "matches_ok ms"
  shows "(on_raw_boundary (buildMap ms) x \<longrightarrow> toRaw (buildMap ms) (toPretty (buildMap ms) x) = x)
       \<and> (on_pretty_boundary (buildMap ms) p \<longrightarrow> toPretty (buildMap ms) (toRaw (buildMap ms) p) = p)
       \<and> (\<forall>b \<in> set (buildMap ms).
             toRaw (buildMap ms) (toPretty (buildMap ms) (raw_offset b)) = raw_offset b
           \<and> toPretty (buildMap ms) (toRaw (buildMap ms) (pretty_offset b)) = pretty_offset b)"
proof -
  have ch: "chained 0 0 (buildMap ms)"
    using assms buildMap_from_chained[of 0 ms 0 0] by (simp add: matches_ok_def buildMap_def)
  have raw: "on_raw_boundary (buildMap ms) x' \<Longrightarrow> toRaw (buildMap ms) (toPretty (buildMap ms) x') = x'" for x'
    using raw_round_trip_from[OF ch, of x'] by (simp add: toPretty_from_zero toRaw_from_zero)
  have pretty: "on_pretty_boundary (buildMap ms) p' \<Longrightarrow> toPretty (buildMap ms) (toRaw (buildMap ms) p') = p'" for p'
    using pretty_round_trip_from[OF ch, of p'] by (simp add: toPretty_from_zero toRaw_from_zero)
  show ?thesis
    using raw pretty breakpoints_on_boundaries[OF ch] by blast
qed

lemma example_map:
  "buildMap example_matches =
     [\<lparr>raw_offset = 2, pretty_offset = 2, raw_length = 5, pretty_length = 1\<rparr>,
      \<lparr>raw_offset = 10, pretty_offset = 6, raw_length = 2, pretty_length = 1\<rparr>]"
  by (simp add: example_matches_def buildMap_def)

theorem coordinate_round_trip_witness:
  "matches_ok example_matches
   \<and> on_raw_boundary (buildMap example_matches) 7
   \<and> toPretty (buildMap example_matches) 7 = 3
   \<and> toRaw (buildMap example_matches) (toPretty (buildMap example_matches) 7) = 7
   \<and> on_pretty_boundary (buildMap example_matches) 6
   \<and> toRaw (buildMap example_matches) 6 = 10
   \<and> toPretty (buildMap example_matches) (toRaw (buildMap example_matches) 6) = 6"
proof -
  have ok: "matches_ok example_matches"
    by (simp add: matches_ok_def example_matches_def)
  show ?thesis
    using ok coordinate_round_trip[OF ok, of 7 6]
    by (simp add: example_map on_raw_boundary_def on_pretty_boundary_def toPretty_def toRaw_def
        pretty_at_def raw_at_def)
qed

text \<open>
  A raw offset strictly inside a collapsed range is not on a boundary: \<^verbatim>\<open>toPretty\<close> snaps
  it to an edge of the glyph, and \<^verbatim>\<open>toRaw\<close> returns that edge's raw offset.
\<close>

lemma interior_offset_snaps:
  "\<not> on_raw_boundary (buildMap example_matches) 4
   \<and> toPretty (buildMap example_matches) 4 = 2
   \<and> toRaw (buildMap example_matches) (toPretty (buildMap example_matches) 4) = 2"
  by (simp add: example_map on_raw_boundary_def toPretty_def toRaw_def pretty_at_def raw_at_def)

end
